theory Spec2Isabelle
  imports Complex_Main
begin

section \<open>Data model\<close>

text \<open>
  The repository holds two programs with the same skeleton: \<^verbatim>\<open>src/unnamed/part_000\<close>
  (authentication, create-or-update, reconciliation on add) and \<^verbatim>\<open>src/index.js\<close>
  (update only, no authentication). Definitions without a suffix embed part_000; the
  functions of index.js that differ carry the suffix \<open>_indexjs\<close>.

  The fields of a request body are JSON values, as \<^verbatim>\<open>bodyParser.json()\<close> yields them; a
  field that is absent is \<^verbatim>\<open>undefined\<close>, here \<open>None\<close>. The IP and the identifiers the
  services return are strings; a string that may be \<^verbatim>\<open>null\<close> or \<^verbatim>\<open>undefined\<close> is a
  \<open>string option\<close>.
\<close>

datatype json =
    JNull
  | JBool bool
  | JNum real
  | JStr string
  | JArr "json list"
  | JObj "(string \<times> json) list"

text \<open>JavaScript truthiness of a value of a body: \<^verbatim>\<open>undefined\<close>, \<^verbatim>\<open>null\<close>, \<^verbatim>\<open>false\<close>,
  zero and the empty string are falsy; every array and every object is truthy.\<close>

fun truthy_js :: "json option \<Rightarrow> bool" where
  "truthy_js None = False"
| "truthy_js (Some JNull) = False"
| "truthy_js (Some (JBool b)) = b"
| "truthy_js (Some (JNum n)) = (n \<noteq> 0)"
| "truthy_js (Some (JStr t)) = (t \<noteq> [])"
| "truthy_js (Some (JArr vs)) = True"
| "truthy_js (Some (JObj fs)) = True"

text \<open>\<^verbatim>\<open>a === b\<close> for a value stored in the array and a value of the request at hand.
  Primitive values are compared by value. Arrays and objects are compared by reference,
  and the two come from different parses, so they are never the same object.\<close>

fun strict_eq :: "json \<Rightarrow> json \<Rightarrow> bool" where
  "strict_eq JNull JNull = True"
| "strict_eq (JBool a) (JBool b) = (a = b)"
| "strict_eq (JNum a) (JNum b) = (a = b)"
| "strict_eq (JStr a) (JStr b) = (a = b)"
| "strict_eq a b = False"

text \<open>JavaScript truthiness of a string-or-null: \<^verbatim>\<open>null\<close>, \<^verbatim>\<open>undefined\<close> and the empty
  string are falsy.\<close>

fun truthy :: "string option \<Rightarrow> bool" where
  "truthy None = False"
| "truthy (Some v) = (v \<noteq> [])"

text \<open>An element of the \<^verbatim>\<open>domains\<close> array, \<^verbatim>\<open>{ zone, record }\<close>, as the handler of
  \<^verbatim>\<open>POST /domains\<close> pushes it: both fields hold the values of the request.\<close>

record domain =
  zone :: json
  recordName :: json

text \<open>A file of the working directory: absent, present but failing to read, or holding a
  value.\<close>

datatype 'a disk_file = Missing | Garbled | Holds 'a

text \<open>What an \<^verbatim>\<open>axios\<close> call yields: a rejection (network error, non-2xx status, a body
  whose shape makes the destructuring throw), or the fields the code reads from
  \<^verbatim>\<open>data\<close>.\<close>

datatype ip_reply = IpFailed | IpData "string option"

datatype lookup_reply = LookupFailed | LookupData bool "string list"

datatype write_reply = WriteFailed | WriteData bool

text \<open>The services the program calls, as transitions of an outside world \<open>'w\<close>. The zone
  and the record name are passed as the program holds them; turning them into the text of
  a URL or of a request body is the service's part.\<close>

record 'w services =
  ipify :: "'w \<Rightarrow> ip_reply \<times> 'w"
  cf_zones :: "json \<Rightarrow> 'w \<Rightarrow> lookup_reply \<times> 'w"
  cf_records :: "string \<Rightarrow> json \<Rightarrow> 'w \<Rightarrow> lookup_reply \<times> 'w"
  cf_create :: "string \<Rightarrow> json \<Rightarrow> string \<Rightarrow> 'w \<Rightarrow> write_reply \<times> 'w"
  cf_update :: "string \<Rightarrow> string \<Rightarrow> json \<Rightarrow> string \<Rightarrow> 'w \<Rightarrow> write_reply \<times> 'w"

text \<open>The effects of a run, in the order they happen: each call of a helper with what
  the helper returned, and each write of a file that succeeded.\<close>

datatype event =
    IpLookup "string option"
  | ZoneLookup json "string option"
  | RecordLookup string json "string option"
  | RecordCreate string json string bool
  | RecordUpdate string string json string bool
  | WriteIPFile string
  | WriteDomainsFile "domain list"

text \<open>The lines written by \<^verbatim>\<open>log\<close> and \<^verbatim>\<open>errorLog\<close> (timestamps left out).\<close>

datatype log_msg =
    ReadIpFileFailed
  | PublicIpFailed
  | ZoneNotFound json
  | ZoneLookupFailed json
  | RecordNotFound json string
  | RecordLookupFailed json
  | Created json string
  | CreateRejected json
  | CreateFailed json
  | Updated json string
  | UpdateRejected json
  | UpdateFailed json
  | IpUnchanged string
  | IpChanged "string option" string
  | DomainAdded json json
  | AddError
  | DomainRemoved json json

datatype log_entry = Info log_msg | Error log_msg

text \<open>
  The state of the process and of its working directory. \<^verbatim>\<open>domains\<close> is a variable
  holding a reference to an array: \<open>arrays\<close> is the store of array objects,
  \<open>domains\<close> the address the variable holds, \<open>fresh\<close> the next unused address. For each
  of the two files the state says what it holds and whether \<^verbatim>\<open>fs.writeFileSync\<close> on it
  succeeds.
\<close>

record 'w state =
  arrays :: "nat \<Rightarrow> domain list"
  domains :: nat
  fresh :: nat
  domains_file :: "domain list disk_file"
  domains_file_writable :: bool
  ip_file :: "string disk_file"
  ip_file_writable :: bool
  world :: 'w
  trace :: "event list"
  console :: "log_entry list"

text \<open>How a function ends: it returns, or an exception leaves it uncaught.\<close>

datatype 'a outcome = Returned 'a | Threw

definition managed :: "'w state \<Rightarrow> domain list" where
  "managed s = arrays s (domains s)"

definition emit :: "event \<Rightarrow> 'w state \<Rightarrow> 'w state" where
  "emit e s = s\<lparr>trace := trace s @ [e]\<rparr>"

definition log :: "log_msg \<Rightarrow> 'w state \<Rightarrow> 'w state" where
  "log m s = s\<lparr>console := console s @ [Info m]\<rparr>"

definition errorLog :: "log_msg \<Rightarrow> 'w state \<Rightarrow> 'w state" where
  "errorLog m s = s\<lparr>console := console s @ [Error m]\<rparr>"

text \<open>\<^verbatim>\<open>String.prototype.trim\<close> on the code units below 256: tab, line feed, vertical
  tab, form feed, carriage return, space and no-break space are white space.\<close>

definition js_whitespace :: "char \<Rightarrow> bool" where
  "js_whitespace c = (of_char c \<in> {9, 10, 11, 12, 13, 32, 160 :: nat})"

definition trim :: "string \<Rightarrow> string" where
  "trim t = rev (dropWhile js_whitespace (rev (dropWhile js_whitespace t)))"

section \<open>State store\<close>

text \<open>\<^verbatim>\<open>saveDomains\<close> (line 58) writes the array \<^verbatim>\<open>domains\<close> refers to. It has no
  \<^verbatim>\<open>catch\<close>: \<open>None\<close> is the exception of a write that fails, which leaves the file as it
  was.\<close>

definition saveDomains :: "'w state \<Rightarrow> 'w state option" where
  "saveDomains s =
     (if domains_file_writable s
      then Some (emit (WriteDomainsFile (managed s)) (s\<lparr>domains_file := Holds (managed s)\<rparr>))
      else None)"

text \<open>\<^verbatim>\<open>getLastIP\<close>: the trimmed text of the file, \<^verbatim>\<open>null\<close> when the file is absent or
  cannot be read.\<close>

definition getLastIP :: "'w state \<Rightarrow> string option \<times> 'w state" where
  "getLastIP s =
     (case ip_file s of
        Holds t \<Rightarrow> (Some (trim t), s)
      | Garbled \<Rightarrow> (None, errorLog ReadIpFileFailed s)
      | Missing \<Rightarrow> (None, s))"

text \<open>\<^verbatim>\<open>saveLastIP\<close> (lines 73 to 75), without a \<^verbatim>\<open>catch\<close> either.\<close>

definition saveLastIP :: "string \<Rightarrow> 'w state \<Rightarrow> 'w state option" where
  "saveLastIP ip s =
     (if ip_file_writable s
      then Some (emit (WriteIPFile ip) (s\<lparr>ip_file := Holds ip\<rparr>))
      else None)"

section \<open>IP resolver and provider client\<close>

definition getPublicIP :: "'w services \<Rightarrow> 'w state \<Rightarrow> string option \<times> 'w state" where
  "getPublicIP env s =
     (case ipify env (world s) of
        (IpData ip, w) \<Rightarrow> (ip, emit (IpLookup ip) (s\<lparr>world := w\<rparr>))
      | (IpFailed, w) \<Rightarrow> (None, errorLog PublicIpFailed (emit (IpLookup None) (s\<lparr>world := w\<rparr>))))"

definition getZoneID :: "'w services \<Rightarrow> json \<Rightarrow> 'w state \<Rightarrow> string option \<times> 'w state" where
  "getZoneID env z s =
     (case cf_zones env z (world s) of
        (LookupData success result, w) \<Rightarrow>
          (case (success, result) of
             (True, i # _) \<Rightarrow> (Some i, emit (ZoneLookup z (Some i)) (s\<lparr>world := w\<rparr>))
           | _ \<Rightarrow> (None, errorLog (ZoneNotFound z) (emit (ZoneLookup z None) (s\<lparr>world := w\<rparr>))))
      | (LookupFailed, w) \<Rightarrow>
          (None, errorLog (ZoneLookupFailed z) (emit (ZoneLookup z None) (s\<lparr>world := w\<rparr>))))"

definition getDNSRecordID ::
  "'w services \<Rightarrow> string \<Rightarrow> json \<Rightarrow> 'w state \<Rightarrow> string option \<times> 'w state" where
  "getDNSRecordID env zoneID name s =
     (case cf_records env zoneID name (world s) of
        (LookupData success result, w) \<Rightarrow>
          (case (success, result) of
             (True, i # _) \<Rightarrow> (Some i, emit (RecordLookup zoneID name (Some i)) (s\<lparr>world := w\<rparr>))
           | _ \<Rightarrow> (None, emit (RecordLookup zoneID name None) (s\<lparr>world := w\<rparr>)))
      | (LookupFailed, w) \<Rightarrow>
          (None, errorLog (RecordLookupFailed name)
                   (emit (RecordLookup zoneID name None) (s\<lparr>world := w\<rparr>))))"

text \<open>index.js logs an error when no record is found (line 105).\<close>

definition getDNSRecordID_indexjs ::
  "'w services \<Rightarrow> string \<Rightarrow> json \<Rightarrow> 'w state \<Rightarrow> string option \<times> 'w state" where
  "getDNSRecordID_indexjs env zoneID name s =
     (case cf_records env zoneID name (world s) of
        (LookupData success result, w) \<Rightarrow>
          (case (success, result) of
             (True, i # _) \<Rightarrow> (Some i, emit (RecordLookup zoneID name (Some i)) (s\<lparr>world := w\<rparr>))
           | _ \<Rightarrow> (None, errorLog (RecordNotFound name zoneID)
                           (emit (RecordLookup zoneID name None) (s\<lparr>world := w\<rparr>))))
      | (LookupFailed, w) \<Rightarrow>
          (None, errorLog (RecordLookupFailed name)
                   (emit (RecordLookup zoneID name None) (s\<lparr>world := w\<rparr>))))"

definition createDNSRecord ::
  "'w services \<Rightarrow> string \<Rightarrow> json \<Rightarrow> string \<Rightarrow> 'w state \<Rightarrow> 'w state" where
  "createDNSRecord env zoneID name ip s =
     (case cf_create env zoneID name ip (world s) of
        (WriteData success, w) \<Rightarrow>
          (if success
           then log (Created name ip) (emit (RecordCreate zoneID name ip True) (s\<lparr>world := w\<rparr>))
           else errorLog (CreateRejected name)
                  (emit (RecordCreate zoneID name ip False) (s\<lparr>world := w\<rparr>)))
      | (WriteFailed, w) \<Rightarrow>
          errorLog (CreateFailed name) (emit (RecordCreate zoneID name ip False) (s\<lparr>world := w\<rparr>)))"

definition updateDNSRecord ::
  "'w services \<Rightarrow> string \<Rightarrow> string \<Rightarrow> json \<Rightarrow> string \<Rightarrow> 'w state \<Rightarrow> 'w state" where
  "updateDNSRecord env zoneID recordID name ip s =
     (case cf_update env zoneID recordID name ip (world s) of
        (WriteData success, w) \<Rightarrow>
          (if success
           then log (Updated name ip)
                  (emit (RecordUpdate zoneID recordID name ip True) (s\<lparr>world := w\<rparr>))
           else errorLog (UpdateRejected name)
                  (emit (RecordUpdate zoneID recordID name ip False) (s\<lparr>world := w\<rparr>)))
      | (WriteFailed, w) \<Rightarrow>
          errorLog (UpdateFailed name)
            (emit (RecordUpdate zoneID recordID name ip False) (s\<lparr>world := w\<rparr>)))"

section \<open>Reconciliation engine\<close>

text \<open>The body of the loop of \<^verbatim>\<open>updateDNS\<close> (part_000, lines 191 to 200), for one element
  of the array.\<close>

definition updateDNS_body :: "'w services \<Rightarrow> string \<Rightarrow> domain \<Rightarrow> 'w state \<Rightarrow> 'w state" where
  "updateDNS_body env currentIP d s =
     (case getZoneID env (zone d) s of
        (zoneID, s1) \<Rightarrow>
          if \<not> truthy zoneID then s1
          else
            (case getDNSRecordID env (the zoneID) (recordName d) s1 of
               (recordID, s2) \<Rightarrow>
                 if truthy recordID
                 then updateDNSRecord env (the zoneID) (the recordID) (recordName d) currentIP s2
                 else createDNSRecord env (the zoneID) (recordName d) currentIP s2))"

text \<open>The body of the loop in index.js (lines 153 to 159): no record, no call.\<close>

definition updateDNS_body_indexjs ::
  "'w services \<Rightarrow> string \<Rightarrow> domain \<Rightarrow> 'w state \<Rightarrow> 'w state" where
  "updateDNS_body_indexjs env currentIP d s =
     (case getZoneID env (zone d) s of
        (zoneID, s1) \<Rightarrow>
          if \<not> truthy zoneID then s1
          else
            (case getDNSRecordID_indexjs env (the zoneID) (recordName d) s1 of
               (recordID, s2) \<Rightarrow>
                 if \<not> truthy recordID then s2
                 else updateDNSRecord env (the zoneID) (the recordID) (recordName d) currentIP s2))"

text \<open>The \<^verbatim>\<open>for ... of\<close> loop when nothing else runs between its iterations: the
  elements the array has when the loop starts, in order. (The loop under requests that
  arrive while it awaits is \<open>run\<close>, below.)\<close>

fun for_of :: "(domain \<Rightarrow> 'w state \<Rightarrow> 'w state) \<Rightarrow> domain list \<Rightarrow> 'w state \<Rightarrow> 'w state" where
  "for_of body [] s = s"
| "for_of body (d # ds) s = for_of body ds (body d s)"

text \<open>\<^verbatim>\<open>updateDNS\<close> (part_000, lines 178 to 204). The exception of \<^verbatim>\<open>saveLastIP\<close> is caught
  nowhere: it leaves \<^verbatim>\<open>updateDNS\<close>.\<close>

definition updateDNS :: "'w services \<Rightarrow> 'w state \<Rightarrow> unit outcome \<times> 'w state" where
  "updateDNS env s =
     (case getPublicIP env s of
        (currentIP, s1) \<Rightarrow>
          if \<not> truthy currentIP then (Returned (), s1)
          else
            (case getLastIP s1 of
               (lastIP, s2) \<Rightarrow>
                 if currentIP = lastIP then (Returned (), log (IpUnchanged (the currentIP)) s2)
                 else
                   (let s3 = log (IpChanged lastIP (the currentIP)) s2;
                        s4 = for_of (updateDNS_body env (the currentIP)) (managed s3) s3
                    in case saveLastIP (the currentIP) s4 of
                         Some s5 \<Rightarrow> (Returned (), s5)
                       | None \<Rightarrow> (Threw, s4))))"

text \<open>\<^verbatim>\<open>updateDNS\<close> of index.js (lines 140 to 163).\<close>

definition updateDNS_indexjs :: "'w services \<Rightarrow> 'w state \<Rightarrow> unit outcome \<times> 'w state" where
  "updateDNS_indexjs env s =
     (case getPublicIP env s of
        (currentIP, s1) \<Rightarrow>
          if \<not> truthy currentIP then (Returned (), s1)
          else
            (case getLastIP s1 of
               (lastIP, s2) \<Rightarrow>
                 if currentIP = lastIP then (Returned (), log (IpUnchanged (the currentIP)) s2)
                 else
                   (let s3 = log (IpChanged lastIP (the currentIP)) s2;
                        s4 = for_of (updateDNS_body_indexjs env (the currentIP)) (managed s3) s3
                    in case saveLastIP (the currentIP) s4 of
                         Some s5 \<Rightarrow> (Returned (), s5)
                       | None \<Rightarrow> (Threw, s4))))"

section \<open>Control surface\<close>

datatype route = PostDomains | DeleteDomains | GetDomains | OtherRoute

text \<open>
  A request as the application sees it. \<^verbatim>\<open>bodyParser.json()\<close> (line 8) runs first, on
  every request: \<open>parser_error\<close> is the status with which it ends a request whose body it
  refuses (400 for malformed JSON), \<open>None\<close> when it lets the request through; then
  \<open>body_zone\<close> and \<open>body_record\<close> are the two fields the handlers read from the body.
\<close>

record request =
  route :: route
  x_api_key :: "string option"
  parser_error :: "nat option"
  body_zone :: "json option"
  body_record :: "json option"

datatype message =
    BodyRejected
  | Unauthorized
  | FieldsRequired
  | DomainExists
  | NoPublicIP
  | ZoneIDNotFound json
  | AddedAndUpdated
  | AddFailed
  | Added
  | DomainNotFound
  | Removed
  | NoSuchRoute

datatype payload =
    Message message
  | MessageDomains message "domain list"
  | DomainList "domain list"

datatype response = Response nat payload

text \<open>\<^verbatim>\<open>authenticate\<close> (part_000, lines 32 to 40): \<open>None\<close> is \<^verbatim>\<open>next()\<close>.\<close>

definition authenticate :: "string option \<Rightarrow> request \<Rightarrow> response option" where
  "authenticate API_KEY req =
     (if truthy (x_api_key req) \<and> x_api_key req = API_KEY then None
      else Some (Response 401 (Message Unauthorized)))"

text \<open>\<^verbatim>\<open>domains.push(d)\<close> changes the array object in place.\<close>

definition push :: "domain \<Rightarrow> 'w state \<Rightarrow> 'w state" where
  "push d s = s\<lparr>arrays := (arrays s)(domains s := arrays s (domains s) @ [d])\<rparr>"

text \<open>\<^verbatim>\<open>domains = domains.filter(p)\<close> builds a new array and makes the variable refer to
  it.\<close>

definition assign_filter :: "(domain \<Rightarrow> bool) \<Rightarrow> 'w state \<Rightarrow> 'w state" where
  "assign_filter p s =
     s\<lparr>arrays := (arrays s)(fresh s := filter p (arrays s (domains s))),
       domains := fresh s, fresh := Suc (fresh s)\<rparr>"

text \<open>The handler of \<^verbatim>\<open>POST /domains\<close> up to its first \<^verbatim>\<open>await\<close> (part_000, lines 210
  to 219; index.js, lines 169 to 178): \<open>Inl\<close> is the response of an early return, \<open>Inr\<close>
  the element added. When \<^verbatim>\<open>saveDomains\<close> throws, the element has been pushed and the
  exception leaves the handler.\<close>

definition post_domains_add ::
  "request \<Rightarrow> 'w state \<Rightarrow> (response + domain) outcome \<times> 'w state" where
  "post_domains_add req s =
     (if \<not> truthy_js (body_zone req) \<or> \<not> truthy_js (body_record req)
      then (Returned (Inl (Response 400 (Message FieldsRequired))), s)
      else if list_ex (\<lambda>d. strict_eq (zone d) (the (body_zone req)) \<and>
                           strict_eq (recordName d) (the (body_record req))) (managed s)
      then (Returned (Inl (Response 400 (Message DomainExists))), s)
      else
        (let d = \<lparr>zone = the (body_zone req), recordName = the (body_record req)\<rparr>;
             s1 = push d s
         in case saveDomains s1 of
              Some s2 \<Rightarrow> (Returned (Inr d), log (DomainAdded (zone d) (recordName d)) s2)
            | None \<Rightarrow> (Threw, s1)))"

text \<open>The rest of the handler in part_000 (lines 221 to 250). The helpers catch their own
  failures; the one statement of the \<^verbatim>\<open>try\<close> block that can throw is \<^verbatim>\<open>saveLastIP\<close>, and
  the \<^verbatim>\<open>catch\<close> of line 247 then logs and answers 500.\<close>

definition post_domains_reconcile ::
  "'w services \<Rightarrow> domain \<Rightarrow> 'w state \<Rightarrow> response \<times> 'w state" where
  "post_domains_reconcile env d s =
     (case getPublicIP env s of
        (currentIP, s1) \<Rightarrow>
          if \<not> truthy currentIP then (Response 500 (Message NoPublicIP), s1)
          else
            (case getZoneID env (zone d) s1 of
               (zoneID, s2) \<Rightarrow>
                 if \<not> truthy zoneID then (Response 400 (Message (ZoneIDNotFound (zone d))), s2)
                 else
                   (case getDNSRecordID env (the zoneID) (recordName d) s2 of
                      (recordID, s3) \<Rightarrow>
                        (let s4 =
                               (if truthy recordID
                                then updateDNSRecord env (the zoneID) (the recordID) (recordName d)
                                       (the currentIP) s3
                                else createDNSRecord env (the zoneID) (recordName d)
                                       (the currentIP) s3)
                         in
                           (case getLastIP s4 of
                              (lastIP, s5) \<Rightarrow>
                                if currentIP \<noteq> lastIP
                                then
                                  (case saveLastIP (the currentIP) s5 of
                                     Some s6 \<Rightarrow>
                                       (Response 201
                                          (MessageDomains AddedAndUpdated (managed s6)), s6)
                                   | None \<Rightarrow>
                                       (Response 500 (Message AddFailed), errorLog AddError s5))
                                else
                                  (Response 201 (MessageDomains AddedAndUpdated (managed s5)),
                                   s5))))))"

definition post_domains ::
  "'w services \<Rightarrow> request \<Rightarrow> 'w state \<Rightarrow> response outcome \<times> 'w state" where
  "post_domains env req s =
     (case post_domains_add req s of
        (Threw, s1) \<Rightarrow> (Threw, s1)
      | (Returned (Inl r), s1) \<Rightarrow> (Returned r, s1)
      | (Returned (Inr d), s1) \<Rightarrow>
          (case post_domains_reconcile env d s1 of (r, s2) \<Rightarrow> (Returned r, s2)))"

text \<open>index.js (lines 168 to 180) answers right after the addition.\<close>

definition post_domains_indexjs :: "request \<Rightarrow> 'w state \<Rightarrow> response outcome \<times> 'w state" where
  "post_domains_indexjs req s =
     (case post_domains_add req s of
        (Threw, s1) \<Rightarrow> (Threw, s1)
      | (Returned (Inl r), s1) \<Rightarrow> (Returned r, s1)
      | (Returned (Inr d), s1) \<Rightarrow>
          (Returned (Response 201 (MessageDomains Added (managed s1))), s1))"

text \<open>The handler of \<^verbatim>\<open>DELETE /domains\<close> (part_000, lines 253 to 267).\<close>

definition delete_domains :: "request \<Rightarrow> 'w state \<Rightarrow> response outcome \<times> 'w state" where
  "delete_domains req s =
     (if \<not> truthy_js (body_zone req) \<or> \<not> truthy_js (body_record req)
      then (Returned (Response 400 (Message FieldsRequired)), s)
      else
        (let initialLength = length (managed s);
             s1 = assign_filter
                    (\<lambda>d. \<not> (strict_eq (zone d) (the (body_zone req)) \<and>
                             strict_eq (recordName d) (the (body_record req)))) s
         in if length (managed s1) = initialLength
            then (Returned (Response 404 (Message DomainNotFound)), s1)
            else
              (case saveDomains s1 of
                 Some s2 \<Rightarrow>
                   (let s3 = log (DomainRemoved (the (body_zone req)) (the (body_record req))) s2
                    in (Returned (Response 200 (MessageDomains Removed (managed s3))), s3))
               | None \<Rightarrow> (Threw, s1))))"

definition get_domains :: "'w state \<Rightarrow> response outcome \<times> 'w state" where
  "get_domains s = (Returned (Response 200 (DomainList (managed s))), s)"

text \<open>
  The application of part_000, in the order of its \<^verbatim>\<open>app.use\<close> calls: the body parser
  (line 8), \<^verbatim>\<open>authenticate\<close> (line 42), then the routes. A request the parser refuses
  goes to the framework's error handler, which answers with the parser's status and runs
  neither \<^verbatim>\<open>authenticate\<close> nor a route; a request no route matches gets the framework's
  404.
\<close>

definition handle ::
  "string option \<Rightarrow> 'w services \<Rightarrow> request \<Rightarrow> 'w state \<Rightarrow> response outcome \<times> 'w state" where
  "handle API_KEY env req s =
     (case parser_error req of
        Some status \<Rightarrow> (Returned (Response status (Message BodyRejected)), s)
      | None \<Rightarrow>
          (case authenticate API_KEY req of
             Some r \<Rightarrow> (Returned r, s)
           | None \<Rightarrow>
               (case route req of
                  PostDomains \<Rightarrow> post_domains env req s
                | DeleteDomains \<Rightarrow> delete_domains req s
                | GetDomains \<Rightarrow> get_domains s
                | OtherRoute \<Rightarrow> (Returned (Response 404 (Message NoSuchRoute)), s))))"

section \<open>The loop while requests arrive\<close>

text \<open>
  \<^verbatim>\<open>updateDNS\<close> awaits inside its loop, and a handler can run at each of these points.
  \<^verbatim>\<open>for (const { zone, record } of domains)\<close> takes an iterator over the array object
  \<^verbatim>\<open>domains\<close> refers to when the loop starts; each step of the iterator compares its index
  with the length the array has at that moment. The iterator is the address of that
  array and an index.
\<close>

record iterator =
  it_array :: nat
  it_index :: nat

text \<open>What can happen next: the loop asks its iterator for the next element and runs the
  body on it, the handler of \<^verbatim>\<open>POST /domains\<close> runs up to its first \<^verbatim>\<open>await\<close>, or the
  handler of \<^verbatim>\<open>DELETE /domains\<close> runs (both for a request that has passed the body
  parser and \<^verbatim>\<open>authenticate\<close>). The body does not read the array, so a request that arrives
  while a body awaits is scheduled after that body: the iterator sees the same array at
  its next step.\<close>

datatype action = Iterate | Add request | Remove request

datatype 'w loop = Running iterator "'w state" | Finished "'w state"

fun step :: "(domain \<Rightarrow> 'w state \<Rightarrow> 'w state) \<Rightarrow> action \<Rightarrow> 'w loop \<Rightarrow> 'w loop" where
  "step body Iterate (Running it s) =
     (if it_index it < length (arrays s (it_array it))
      then Running (it\<lparr>it_index := Suc (it_index it)\<rparr>)
             (body (arrays s (it_array it) ! it_index it) s)
      else Finished s)"
| "step body (Add req) (Running it s) = Running it (snd (post_domains_add req s))"
| "step body (Remove req) (Running it s) = Running it (snd (delete_domains req s))"
| "step body a (Finished s) = Finished s"

text \<open>The loop from its start, under a schedule; what happens after the loop has ended is
  not followed.\<close>

fun run :: "(domain \<Rightarrow> 'w state \<Rightarrow> 'w state) \<Rightarrow> action list \<Rightarrow> 'w loop \<Rightarrow> 'w loop" where
  "run body [] c = c"
| "run body (a # as) c = run body as (step body a c)"

definition start_loop :: "'w state \<Rightarrow> 'w loop" where
  "start_loop s = Running \<lparr>it_array = domains s, it_index = 0\<rparr> s"

fun finished :: "'w loop \<Rightarrow> bool" where
  "finished (Finished s) = True"
| "finished (Running it s) = False"

fun loop_state :: "'w loop \<Rightarrow> 'w state" where
  "loop_state (Finished s) = s"
| "loop_state (Running it s) = s"

fun is_add :: "action \<Rightarrow> bool" where
  "is_add (Add req) = True"
| "is_add a = False"

fun is_remove :: "action \<Rightarrow> bool" where
  "is_remove (Remove req) = True"
| "is_remove a = False"

section \<open>A concrete setting\<close>

text \<open>The requests a service can be sent.\<close>

datatype http_call =
    GetIp
  | GetZones json
  | GetRecords string json
  | PostRecord string json string
  | PutRecord string string json string

text \<open>Services that answer the same way at every call and keep the list of the requests
  they were sent: the reply of the IP resolver, of the zone lookup (by zone), of the record
  lookup (by zone identifier and name) and of both writes.\<close>

definition fixed_services ::
  "ip_reply \<Rightarrow> (json \<Rightarrow> lookup_reply) \<Rightarrow> (string \<Rightarrow> json \<Rightarrow> lookup_reply) \<Rightarrow> write_reply
     \<Rightarrow> (http_call list) services" where
  "fixed_services ip zs rs wr =
     \<lparr>ipify = (\<lambda>w. (ip, w @ [GetIp])),
      cf_zones = (\<lambda>z w. (zs z, w @ [GetZones z])),
      cf_records = (\<lambda>zoneID name w. (rs zoneID name, w @ [GetRecords zoneID name])),
      cf_create = (\<lambda>zoneID name a w. (wr, w @ [PostRecord zoneID name a])),
      cf_update = (\<lambda>zoneID recordID name a w. (wr, w @ [PutRecord zoneID recordID name a]))\<rparr>"

text \<open>A process that manages the given domains, with the given last IP on disk and both
  files writable.\<close>

definition initial :: "domain list \<Rightarrow> string disk_file \<Rightarrow> (http_call list) state" where
  "initial ds f =
     \<lparr>arrays = (\<lambda>a. []) (0 := ds), domains = 0, fresh = 1, domains_file = Holds ds,
      domains_file_writable = True, ip_file = f, ip_file_writable = True, world = [],
      trace = [], console = []\<rparr>"

definition home :: domain where
  "home = \<lparr>zone = JStr ''example.com'', recordName = JStr ''home.example.com''\<rparr>"

definition office :: domain where
  "office = \<lparr>zone = JStr ''b.com'', recordName = JStr ''x.b.com''\<rparr>"

definition lost :: domain where
  "lost = \<lparr>zone = JStr ''nowhere.org'', recordName = JStr ''a.nowhere.org''\<rparr>"

text \<open>A domain whose zone is an object, \<^verbatim>\<open>{"name": "example.com"}\<close>.\<close>

definition boxed :: domain where
  "boxed = \<lparr>zone = JObj [(''name'', JStr ''example.com'')], recordName = JStr ''home.example.com''\<rparr>"

text \<open>A provider that knows the zones \<^verbatim>\<open>example.com\<close> and \<^verbatim>\<open>b.com\<close> and one record,
  \<^verbatim>\<open>home.example.com\<close>; the reply of the IP resolver and of the writes is a parameter.\<close>

definition cloud :: "ip_reply \<Rightarrow> write_reply \<Rightarrow> (http_call list) services" where
  "cloud ipr wr =
     fixed_services ipr
       (\<lambda>z. if z = JStr ''example.com'' then LookupData True [''z1'']
            else if z = JStr ''b.com'' then LookupData True [''z2'']
            else LookupData True [])
       (\<lambda>zoneID name. if zoneID = ''z1'' \<and> name = JStr ''home.example.com''
                       then LookupData True [''r1''] else LookupData True [])
       wr"

definition add_request :: "domain \<Rightarrow> request" where
  "add_request d =
     \<lparr>route = PostDomains, x_api_key = Some ''secret'', parser_error = None,
      body_zone = Some (zone d), body_record = Some (recordName d)\<rparr>"

definition remove_request :: "domain \<Rightarrow> request" where
  "remove_request d =
     \<lparr>route = DeleteDomains, x_api_key = Some ''secret'', parser_error = None,
      body_zone = Some (zone d), body_record = Some (recordName d)\<rparr>"

section \<open>Vocabulary of the properties\<close>

text \<open>Nothing of the store changed between two states: the arrays, the variable
  \<^verbatim>\<open>domains\<close> and both files.\<close>

definition same_store :: "'w state \<Rightarrow> 'w state \<Rightarrow> bool" where
  "same_store s s' =
     (arrays s' = arrays s \<and> domains s' = domains s \<and> fresh s' = fresh s \<and>
      domains_file s' = domains_file s \<and> domains_file_writable s' = domains_file_writable s \<and>
      ip_file s' = ip_file s \<and> ip_file_writable s' = ip_file_writable s)"

text \<open>From \<open>s\<close> to \<open>s'\<close> the events \<open>evs\<close> happened, the outside world became \<open>w\<close>, and the
  store stayed as it was.\<close>

definition advances :: "'w state \<Rightarrow> event list \<Rightarrow> 'w \<Rightarrow> 'w state \<Rightarrow> bool" where
  "advances s evs w s' = (trace s' = trace s @ evs \<and> world s' = w \<and> same_store s s')"

text \<open>What the replies of the services mean in the provider contract of the design
  (section 6): the IP resolved or none, the identifier found or none, the write accepted
  or not.\<close>

definition resolved :: "ip_reply \<Rightarrow> string option" where
  "resolved r = (case r of IpData ip \<Rightarrow> ip | IpFailed \<Rightarrow> None)"

definition found :: "lookup_reply \<Rightarrow> string option" where
  "found r = (case r of LookupData True (i # _) \<Rightarrow> Some i | _ \<Rightarrow> None)"

definition succeeded :: "write_reply \<Rightarrow> bool" where
  "succeeded r = (case r of WriteData ok \<Rightarrow> ok | WriteFailed \<Rightarrow> False)"

text \<open>
  The attempt for one domain as the design describes it (section 4.1, step 4), on the
  outside world alone: the calls made, in order, and the world they leave. Look the zone
  up; without a zone identifier stop there; look the record up; update the record found,
  or create one when none is found.
\<close>

definition attempt :: "'w services \<Rightarrow> string \<Rightarrow> domain \<Rightarrow> 'w \<Rightarrow> event list \<times> 'w" where
  "attempt env ip d w =
     (case cf_zones env (zone d) w of
        (zr, w1) \<Rightarrow>
          if \<not> truthy (found zr) then ([ZoneLookup (zone d) (found zr)], w1)
          else
            (case cf_records env (the (found zr)) (recordName d) w1 of
               (rr, w2) \<Rightarrow>
                 if truthy (found rr)
                 then (case cf_update env (the (found zr)) (the (found rr)) (recordName d) ip w2 of
                         (wr, w3) \<Rightarrow>
                           ([ZoneLookup (zone d) (found zr),
                             RecordLookup (the (found zr)) (recordName d) (found rr),
                             RecordUpdate (the (found zr)) (the (found rr)) (recordName d) ip
                               (succeeded wr)], w3))
                 else (case cf_create env (the (found zr)) (recordName d) ip w2 of
                         (wr, w3) \<Rightarrow>
                           ([ZoneLookup (zone d) (found zr),
                             RecordLookup (the (found zr)) (recordName d) (found rr),
                             RecordCreate (the (found zr)) (recordName d) ip (succeeded wr)],
                            w3))))"

text \<open>The attempt without creation: a record that is not found ends the attempt.\<close>

definition attempt_update_only ::
  "'w services \<Rightarrow> string \<Rightarrow> domain \<Rightarrow> 'w \<Rightarrow> event list \<times> 'w" where
  "attempt_update_only env ip d w =
     (case cf_zones env (zone d) w of
        (zr, w1) \<Rightarrow>
          if \<not> truthy (found zr) then ([ZoneLookup (zone d) (found zr)], w1)
          else
            (case cf_records env (the (found zr)) (recordName d) w1 of
               (rr, w2) \<Rightarrow>
                 if truthy (found rr)
                 then (case cf_update env (the (found zr)) (the (found rr)) (recordName d) ip w2 of
                         (wr, w3) \<Rightarrow>
                           ([ZoneLookup (zone d) (found zr),
                             RecordLookup (the (found zr)) (recordName d) (found rr),
                             RecordUpdate (the (found zr)) (the (found rr)) (recordName d) ip
                               (succeeded wr)], w3))
                 else ([ZoneLookup (zone d) (found zr),
                        RecordLookup (the (found zr)) (recordName d) (found rr)], w2)))"

text \<open>The attempts for a list of domains, one after the other, each on the world the one
  before it left.\<close>

fun attempts ::
  "(domain \<Rightarrow> 'w \<Rightarrow> event list \<times> 'w) \<Rightarrow> domain list \<Rightarrow> 'w \<Rightarrow> event list \<times> 'w" where
  "attempts a [] w = ([], w)"
| "attempts a (d # ds) w =
     (case a d w of
        (evs1, w1) \<Rightarrow> (case attempts a ds w1 of (evs2, w2) \<Rightarrow> (evs1 @ evs2, w2)))"

text \<open>The pair a request names, and the condition under which the handler of
  \<^verbatim>\<open>POST /domains\<close> takes it: both fields truthy, and no element of the array with both
  fields \<^verbatim>\<open>===\<close> to those of the request.\<close>

definition requested :: "request \<Rightarrow> domain" where
  "requested req = \<lparr>zone = the (body_zone req), recordName = the (body_record req)\<rparr>"

definition same_pair :: "domain \<Rightarrow> domain \<Rightarrow> bool" where
  "same_pair d e = (strict_eq (zone d) (zone e) \<and> strict_eq (recordName d) (recordName e))"

definition accepted :: "request \<Rightarrow> 'w state \<Rightarrow> bool" where
  "accepted req s =
     (truthy_js (body_zone req) \<and> truthy_js (body_record req) \<and>
      \<not> list_ex (\<lambda>d. same_pair d (requested req)) (managed s))"

text \<open>The store after the pair \<open>d\<close> was pushed and the array written to disk.\<close>

definition added :: "domain \<Rightarrow> 'w state \<Rightarrow> 'w state" where
  "added d s =
     s\<lparr>arrays := (arrays s)(domains s := managed s @ [d]),
       domains_file := Holds (managed s @ [d])\<rparr>"



fun is_ip_write :: "event \<Rightarrow> bool" where
  "is_ip_write (WriteIPFile a) = True"
| "is_ip_write e = False"

fun zone_looked_up :: "event \<Rightarrow> json option" where
  "zone_looked_up (ZoneLookup z r) = Some z"
| "zone_looked_up e = None"

text \<open>The zones a trace looks up, in order.\<close>

definition zones_attempted :: "event list \<Rightarrow> json list" where
  "zones_attempted evs = List.map_filter zone_looked_up evs"

text \<open>The events a run adds to the trace, from the state it starts in to the state it
  ends in.\<close>

definition new_events :: "'w state \<Rightarrow> 'w state \<Rightarrow> event list" where
  "new_events s s' = drop (length (trace s)) (trace s')"

text \<open>A run of events commits the last IP after the loop: it writes the file not at all,
  or once, as its last event, after looking up exactly the zones \<open>zs\<close>.\<close>

definition commits_after_loop :: "json list \<Rightarrow> event list \<Rightarrow> bool" where
  "commits_after_loop zs evs =
     (filter is_ip_write evs = [] \<or>
      (evs \<noteq> [] \<and> is_ip_write (last evs) \<and> filter is_ip_write (butlast evs) = [] \<and>
       zones_attempted (butlast evs) = zs))"

text \<open>The pairs the additions of a schedule ask for, in order.\<close>

fun added_pairs :: "action list \<Rightarrow> domain list" where
  "added_pairs [] = []"
| "added_pairs (Add req # as) = requested req # added_pairs as"
| "added_pairs (a # as) = added_pairs as"

text \<open>The invariant of a loop over the array at address \<open>a0\<close> that started with the trace
  \<open>tr0\<close>: the iterator is on that array, within its bounds, and the zones looked up since
  the start are those of the elements before the index (of all elements, once the loop
  has ended).\<close>

fun pass_invariant :: "nat \<Rightarrow> event list \<Rightarrow> 'w loop \<Rightarrow> bool" where
  "pass_invariant a0 tr0 (Running it s) =
     (it_array it = a0 \<and> it_index it \<le> length (arrays s a0) \<and>
      a0 < fresh s \<and> domains s < fresh s \<and>
      take (length tr0) (trace s) = tr0 \<and>
      zones_attempted (drop (length tr0) (trace s)) =
        map zone (take (it_index it) (arrays s a0)))"
| "pass_invariant a0 tr0 (Finished s) =
     (take (length tr0) (trace s) = tr0 \<and>
      zones_attempted (drop (length tr0) (trace s)) = map zone (arrays s a0))"
section \<open>Effects of the helpers\<close>

text \<open>Each helper makes one call, adds its event to the trace and leaves the store
  alone.\<close>

lemma same_store_refl: "same_store s s"
  by (simp add: same_store_def)

lemma same_store_trans: "same_store a b \<Longrightarrow> same_store b c \<Longrightarrow> same_store a c"
  by (simp add: same_store_def)

lemma same_store_managed: "same_store s s' \<Longrightarrow> managed s' = managed s"
  by (simp add: same_store_def managed_def)

lemma advances_refl: "advances s [] (world s) s"
  by (simp add: advances_def same_store_refl)

lemma advances_trans:
  "advances s evs1 w1 s1 \<Longrightarrow> advances s1 evs2 w2 s2 \<Longrightarrow> advances s (evs1 @ evs2) w2 s2"
  by (simp add: advances_def same_store_def)

lemma advances_log: "advances s evs w s' \<Longrightarrow> advances s evs w (log m s')"
  by (simp add: advances_def same_store_def log_def)

lemma advances_errorLog: "advances s evs w s' \<Longrightarrow> advances s evs w (errorLog m s')"
  by (simp add: advances_def same_store_def errorLog_def)

lemma advances_new_events: "advances s evs w s' \<Longrightarrow> new_events s s' = evs"
  by (simp add: advances_def new_events_def)

lemma new_events_append: "trace s' = trace s @ evs \<Longrightarrow> new_events s s' = evs"
  by (simp add: new_events_def)

lemma getLastIP_fst: "ip_file s' = ip_file s \<Longrightarrow> fst (getLastIP s') = fst (getLastIP s)"
  by (simp add: getLastIP_def split: disk_file.splits)

lemma getLastIP_effect: "advances s [] (world s) (snd (getLastIP s))"
  by (simp add: getLastIP_def errorLog_def advances_def same_store_def split: disk_file.splits)

lemma getPublicIP_effect:
  "fst (getPublicIP env s) = resolved (fst (ipify env (world s))) \<and>
   advances s [IpLookup (resolved (fst (ipify env (world s))))] (snd (ipify env (world s)))
     (snd (getPublicIP env s))"
  by (auto simp: getPublicIP_def resolved_def emit_def errorLog_def advances_def same_store_def
      split: prod.splits ip_reply.splits)

lemma getZoneID_effect:
  "fst (getZoneID env z s) = found (fst (cf_zones env z (world s))) \<and>
   advances s [ZoneLookup z (found (fst (cf_zones env z (world s))))]
     (snd (cf_zones env z (world s))) (snd (getZoneID env z s))"
  by (auto simp: getZoneID_def found_def emit_def errorLog_def advances_def same_store_def
      split: prod.splits lookup_reply.splits bool.splits list.splits)

lemma getDNSRecordID_effect:
  "fst (getDNSRecordID env z n s) = found (fst (cf_records env z n (world s))) \<and>
   advances s [RecordLookup z n (found (fst (cf_records env z n (world s))))]
     (snd (cf_records env z n (world s))) (snd (getDNSRecordID env z n s))"
  by (auto simp: getDNSRecordID_def found_def emit_def errorLog_def advances_def same_store_def
      split: prod.splits lookup_reply.splits bool.splits list.splits)

lemma getDNSRecordID_indexjs_effect:
  "fst (getDNSRecordID_indexjs env z n s) = found (fst (cf_records env z n (world s))) \<and>
   advances s [RecordLookup z n (found (fst (cf_records env z n (world s))))]
     (snd (cf_records env z n (world s))) (snd (getDNSRecordID_indexjs env z n s))"
  by (auto simp: getDNSRecordID_indexjs_def found_def emit_def errorLog_def advances_def
      same_store_def split: prod.splits lookup_reply.splits bool.splits list.splits)

lemma createDNSRecord_effect:
  "advances s [RecordCreate z n a (succeeded (fst (cf_create env z n a (world s))))]
     (snd (cf_create env z n a (world s))) (createDNSRecord env z n a s)"
  by (auto simp: createDNSRecord_def succeeded_def emit_def errorLog_def log_def advances_def
      same_store_def split: prod.splits write_reply.splits)

lemma updateDNSRecord_effect:
  "advances s [RecordUpdate z r n a (succeeded (fst (cf_update env z r n a (world s))))]
     (snd (cf_update env z r n a (world s))) (updateDNSRecord env z r n a s)"
  by (auto simp: updateDNSRecord_def succeeded_def emit_def errorLog_def log_def advances_def
      same_store_def split: prod.splits write_reply.splits)

section \<open>One domain, then the loop\<close>

lemma updateDNS_body_effect:
  "advances s (fst (attempt env ip d (world s))) (snd (attempt env ip d (world s)))
     (updateDNS_body env ip d s)"
proof -
  obtain zr w1 where zr: "cf_zones env (zone d) (world s) = (zr, w1)"
    by (cases "cf_zones env (zone d) (world s)")
  obtain z s1 where z: "getZoneID env (zone d) s = (z, s1)"
    by (cases "getZoneID env (zone d) s")
  have e1: "z = found zr" "advances s [ZoneLookup (zone d) (found zr)] w1 s1"
    using getZoneID_effect [of env "zone d" s] by (simp_all add: z zr)
  show ?thesis
  proof (cases "truthy (found zr)")
    case False
    then show ?thesis using e1 by (simp add: updateDNS_body_def attempt_def z zr)
  next
    case True
    have w1: "world s1 = w1" using e1(2) by (simp add: advances_def)
    obtain rr w2 where rr: "cf_records env (the (found zr)) (recordName d) w1 = (rr, w2)"
      by (cases "cf_records env (the (found zr)) (recordName d) w1")
    obtain r s2 where r: "getDNSRecordID env (the (found zr)) (recordName d) s1 = (r, s2)"
      by (cases "getDNSRecordID env (the (found zr)) (recordName d) s1")
    have e2: "r = found rr"
      "advances s1 [RecordLookup (the (found zr)) (recordName d) (found rr)] w2 s2"
      using getDNSRecordID_effect [of env "the (found zr)" "recordName d" s1]
      by (simp_all add: r rr w1)
    have w2: "world s2 = w2" using e2(2) by (simp add: advances_def)
    have e12: "advances s [ZoneLookup (zone d) (found zr),
                 RecordLookup (the (found zr)) (recordName d) (found rr)] w2 s2"
      using advances_trans [OF e1(2) e2(2)] by simp
    show ?thesis
    proof (cases "truthy (found rr)")
      case present: True
      obtain wr w3 where wr:
        "cf_update env (the (found zr)) (the (found rr)) (recordName d) ip w2 = (wr, w3)"
        by (cases "cf_update env (the (found zr)) (the (found rr)) (recordName d) ip w2")
      have e3: "advances s2
                  [RecordUpdate (the (found zr)) (the (found rr)) (recordName d) ip (succeeded wr)]
                  w3 (updateDNSRecord env (the (found zr)) (the (found rr)) (recordName d) ip s2)"
        using updateDNSRecord_effect [of s2 "the (found zr)" "the (found rr)" "recordName d" ip env]
        by (simp add: w2 wr)
      show ?thesis
        using advances_trans [OF e12 e3] True present e1(1) e2(1)
        by (simp add: updateDNS_body_def attempt_def z zr r rr wr)
    next
      case absent: False
      obtain wr w3 where wr:
        "cf_create env (the (found zr)) (recordName d) ip w2 = (wr, w3)"
        by (cases "cf_create env (the (found zr)) (recordName d) ip w2")
      have e3: "advances s2 [RecordCreate (the (found zr)) (recordName d) ip (succeeded wr)]
                  w3 (createDNSRecord env (the (found zr)) (recordName d) ip s2)"
        using createDNSRecord_effect [of s2 "the (found zr)" "recordName d" ip env]
        by (simp add: w2 wr)
      show ?thesis
        using advances_trans [OF e12 e3] True absent e1(1) e2(1)
        by (simp add: updateDNS_body_def attempt_def z zr r rr wr)
    qed
  qed
qed

lemma updateDNS_body_indexjs_effect:
  "advances s (fst (attempt_update_only env ip d (world s)))
     (snd (attempt_update_only env ip d (world s))) (updateDNS_body_indexjs env ip d s)"
proof -
  obtain zr w1 where zr: "cf_zones env (zone d) (world s) = (zr, w1)"
    by (cases "cf_zones env (zone d) (world s)")
  obtain z s1 where z: "getZoneID env (zone d) s = (z, s1)"
    by (cases "getZoneID env (zone d) s")
  have e1: "z = found zr" "advances s [ZoneLookup (zone d) (found zr)] w1 s1"
    using getZoneID_effect [of env "zone d" s] by (simp_all add: z zr)
  show ?thesis
  proof (cases "truthy (found zr)")
    case False
    then show ?thesis
      using e1 by (simp add: updateDNS_body_indexjs_def attempt_update_only_def z zr)
  next
    case True
    have w1: "world s1 = w1" using e1(2) by (simp add: advances_def)
    obtain rr w2 where rr: "cf_records env (the (found zr)) (recordName d) w1 = (rr, w2)"
      by (cases "cf_records env (the (found zr)) (recordName d) w1")
    obtain r s2 where r: "getDNSRecordID_indexjs env (the (found zr)) (recordName d) s1 = (r, s2)"
      by (cases "getDNSRecordID_indexjs env (the (found zr)) (recordName d) s1")
    have e2: "r = found rr"
      "advances s1 [RecordLookup (the (found zr)) (recordName d) (found rr)] w2 s2"
      using getDNSRecordID_indexjs_effect [of env "the (found zr)" "recordName d" s1]
      by (simp_all add: r rr w1)
    have w2: "world s2 = w2" using e2(2) by (simp add: advances_def)
    have e12: "advances s [ZoneLookup (zone d) (found zr),
                 RecordLookup (the (found zr)) (recordName d) (found rr)] w2 s2"
      using advances_trans [OF e1(2) e2(2)] by simp
    show ?thesis
    proof (cases "truthy (found rr)")
      case present: True
      obtain wr w3 where wr:
        "cf_update env (the (found zr)) (the (found rr)) (recordName d) ip w2 = (wr, w3)"
        by (cases "cf_update env (the (found zr)) (the (found rr)) (recordName d) ip w2")
      have e3: "advances s2
                  [RecordUpdate (the (found zr)) (the (found rr)) (recordName d) ip (succeeded wr)]
                  w3 (updateDNSRecord env (the (found zr)) (the (found rr)) (recordName d) ip s2)"
        using updateDNSRecord_effect [of s2 "the (found zr)" "the (found rr)" "recordName d" ip env]
        by (simp add: w2 wr)
      show ?thesis
        using advances_trans [OF e12 e3] True present e1(1) e2(1)
        by (simp add: updateDNS_body_indexjs_def attempt_update_only_def z zr r rr wr)
    next
      case absent: False
      show ?thesis
        using e12 True absent e1(1) e2(1)
        by (simp add: updateDNS_body_indexjs_def attempt_update_only_def z zr r rr)
    qed
  qed
qed

lemma for_of_effect:
  assumes body: "\<And>d s. advances s (fst (a d (world s))) (snd (a d (world s))) (body d s)"
  shows "advances s (fst (attempts a ds (world s))) (snd (attempts a ds (world s)))
           (for_of body ds s)"
proof (induction ds arbitrary: s)
  case Nil
  show ?case by (simp add: advances_refl)
next
  case (Cons d ds)
  have w: "world (body d s) = snd (a d (world s))"
    using body [of s d] by (simp add: advances_def)
  have rest: "advances (body d s) (fst (attempts a ds (snd (a d (world s)))))
                (snd (attempts a ds (snd (a d (world s))))) (for_of body ds (body d s))"
    using Cons.IH [of "body d s"] by (simp add: w)
  show ?case
    using advances_trans [OF body [of s d] rest]
    by (simp add: split_beta)
qed


section \<open>A whole pass\<close>

lemma saveLastIP_effect:
  "saveLastIP a s =
     (if ip_file_writable s then Some (emit (WriteIPFile a) (s\<lparr>ip_file := Holds a\<rparr>)) else None)"
  by (simp add: saveLastIP_def)

lemma updateDNS_skip:
  assumes skip: "\<not> truthy (resolved (fst (ipify env (world s)))) \<or>
                 fst (getLastIP s) = resolved (fst (ipify env (world s)))"
  shows "fst (updateDNS env s) = Returned () \<and>
         advances s [IpLookup (resolved (fst (ipify env (world s))))] (snd (ipify env (world s)))
           (snd (updateDNS env s))"
proof -
  define cur where "cur = resolved (fst (ipify env (world s)))"
  obtain c s1 where ip: "getPublicIP env s = (c, s1)" by (cases "getPublicIP env s")
  have e1: "c = cur" "advances s [IpLookup cur] (snd (ipify env (world s))) s1"
    using getPublicIP_effect [of env s] by (simp_all add: ip cur_def)
  obtain l s2 where l: "getLastIP s1 = (l, s2)" by (cases "getLastIP s1")
  have e2: "advances s1 [] (world s1) s2" using getLastIP_effect [of s1] by (simp add: l)
  have l_eq: "l = fst (getLastIP s)"
    using getLastIP_fst [of s1 s] e1(2) l by (simp add: advances_def same_store_def)
  have e12: "advances s [IpLookup cur] (snd (ipify env (world s))) s2"
    using advances_trans [OF e1(2) e2] e1(2) by (simp add: advances_def)
  show ?thesis
  proof (cases "truthy cur")
    case False
    then show ?thesis using e1 by (simp add: updateDNS_def ip cur_def [symmetric])
  next
    case True
    with skip l_eq have "cur = l" by (simp add: cur_def)
    with True show ?thesis
      using advances_log [OF e12] e1(1)
      by (simp add: updateDNS_def ip l cur_def [symmetric])
  qed
qed

lemma updateDNS_proceed:
  assumes t: "truthy (resolved (fst (ipify env (world s))))"
    and ne: "fst (getLastIP s) \<noteq> resolved (fst (ipify env (world s)))"
  shows "fst (updateDNS env s) = (if ip_file_writable s then Returned () else Threw) \<and>
         trace (snd (updateDNS env s)) =
           trace s @ IpLookup (resolved (fst (ipify env (world s)))) #
             fst (attempts (attempt env (the (resolved (fst (ipify env (world s))))))
                    (managed s) (snd (ipify env (world s)))) @
             (if ip_file_writable s
              then [WriteIPFile (the (resolved (fst (ipify env (world s)))))] else []) \<and>
         world (snd (updateDNS env s)) =
           snd (attempts (attempt env (the (resolved (fst (ipify env (world s))))))
                  (managed s) (snd (ipify env (world s)))) \<and>
         same_store
           (if ip_file_writable s
            then s\<lparr>ip_file := Holds (the (resolved (fst (ipify env (world s)))))\<rparr> else s)
           (snd (updateDNS env s))"
proof -
  define cur where "cur = resolved (fst (ipify env (world s)))"
  define w1 where "w1 = snd (ipify env (world s))"
  obtain c s1 where ip: "getPublicIP env s = (c, s1)" by (cases "getPublicIP env s")
  have e1: "c = cur" "advances s [IpLookup cur] w1 s1"
    using getPublicIP_effect [of env s] by (simp_all add: ip cur_def w1_def)
  obtain l s2 where l: "getLastIP s1 = (l, s2)" by (cases "getLastIP s1")
  have e2: "advances s1 [] (world s1) s2" using getLastIP_effect [of s1] by (simp add: l)
  have l_eq: "l = fst (getLastIP s)"
    using getLastIP_fst [of s1 s] e1(2) l by (simp add: advances_def same_store_def)
  have e12: "advances s [IpLookup cur] w1 s2"
    using advances_trans [OF e1(2) e2] e1(2) by (simp add: advances_def)
  define s3 where "s3 = log (IpChanged l (the cur)) s2"
  define s4 where "s4 = for_of (updateDNS_body env (the cur)) (managed s3) s3"
  have e3: "advances s [IpLookup cur] w1 s3"
    using advances_log [OF e12] by (simp add: s3_def)
  have m3: "managed s3 = managed s" and w3: "world s3 = w1"
    using e3 by (simp_all add: advances_def same_store_managed)
  have loop: "advances s3 (fst (attempts (attempt env (the cur)) (managed s) w1))
                (snd (attempts (attempt env (the cur)) (managed s) w1)) s4"
    using for_of_effect [of "attempt env (the cur)" "updateDNS_body env (the cur)" s3 "managed s3",
        OF updateDNS_body_effect]
    by (simp add: s4_def m3 w3)
  have e4: "advances s (IpLookup cur # fst (attempts (attempt env (the cur)) (managed s) w1))
              (snd (attempts (attempt env (the cur)) (managed s) w1)) s4"
    using advances_trans [OF e3 loop] by simp
  have wr4: "ip_file_writable s4 = ip_file_writable s"
    using e4 by (simp add: advances_def same_store_def)
  have u: "updateDNS env s =
             (case saveLastIP (the cur) s4 of Some s5 \<Rightarrow> (Returned (), s5) | None \<Rightarrow> (Threw, s4))"
  proof -
    have "cur \<noteq> l" using ne l_eq by (simp add: cur_def)
    then show ?thesis
      unfolding s4_def s3_def using t e1(1)
      by (simp add: updateDNS_def ip l Let_def cur_def [symmetric] split: option.splits)
  qed
  show ?thesis
    using e4 unfolding cur_def [symmetric] w1_def [symmetric]
    by (simp add: u saveLastIP_effect wr4 advances_def same_store_def emit_def)
qed

lemma updateDNS_indexjs_skip:
  assumes skip: "\<not> truthy (resolved (fst (ipify env (world s)))) \<or>
                 fst (getLastIP s) = resolved (fst (ipify env (world s)))"
  shows "fst (updateDNS_indexjs env s) = Returned () \<and>
         advances s [IpLookup (resolved (fst (ipify env (world s))))] (snd (ipify env (world s)))
           (snd (updateDNS_indexjs env s))"
proof -
  define cur where "cur = resolved (fst (ipify env (world s)))"
  obtain c s1 where ip: "getPublicIP env s = (c, s1)" by (cases "getPublicIP env s")
  have e1: "c = cur" "advances s [IpLookup cur] (snd (ipify env (world s))) s1"
    using getPublicIP_effect [of env s] by (simp_all add: ip cur_def)
  obtain l s2 where l: "getLastIP s1 = (l, s2)" by (cases "getLastIP s1")
  have e2: "advances s1 [] (world s1) s2" using getLastIP_effect [of s1] by (simp add: l)
  have l_eq: "l = fst (getLastIP s)"
    using getLastIP_fst [of s1 s] e1(2) l by (simp add: advances_def same_store_def)
  have e12: "advances s [IpLookup cur] (snd (ipify env (world s))) s2"
    using advances_trans [OF e1(2) e2] e1(2) by (simp add: advances_def)
  show ?thesis
  proof (cases "truthy cur")
    case False
    then show ?thesis using e1 by (simp add: updateDNS_indexjs_def ip cur_def [symmetric])
  next
    case True
    with skip l_eq have "cur = l" by (simp add: cur_def)
    with True show ?thesis
      using advances_log [OF e12] e1(1)
      by (simp add: updateDNS_indexjs_def ip l cur_def [symmetric])
  qed
qed

lemma updateDNS_indexjs_proceed:
  assumes t: "truthy (resolved (fst (ipify env (world s))))"
    and ne: "fst (getLastIP s) \<noteq> resolved (fst (ipify env (world s)))"
  shows "fst (updateDNS_indexjs env s) = (if ip_file_writable s then Returned () else Threw) \<and>
         trace (snd (updateDNS_indexjs env s)) =
           trace s @ IpLookup (resolved (fst (ipify env (world s)))) #
             fst (attempts (attempt_update_only env (the (resolved (fst (ipify env (world s))))))
                    (managed s) (snd (ipify env (world s)))) @
             (if ip_file_writable s
              then [WriteIPFile (the (resolved (fst (ipify env (world s)))))] else []) \<and>
         world (snd (updateDNS_indexjs env s)) =
           snd (attempts (attempt_update_only env (the (resolved (fst (ipify env (world s))))))
                  (managed s) (snd (ipify env (world s)))) \<and>
         same_store
           (if ip_file_writable s
            then s\<lparr>ip_file := Holds (the (resolved (fst (ipify env (world s)))))\<rparr> else s)
           (snd (updateDNS_indexjs env s))"
proof -
  define cur where "cur = resolved (fst (ipify env (world s)))"
  define w1 where "w1 = snd (ipify env (world s))"
  obtain c s1 where ip: "getPublicIP env s = (c, s1)" by (cases "getPublicIP env s")
  have e1: "c = cur" "advances s [IpLookup cur] w1 s1"
    using getPublicIP_effect [of env s] by (simp_all add: ip cur_def w1_def)
  obtain l s2 where l: "getLastIP s1 = (l, s2)" by (cases "getLastIP s1")
  have e2: "advances s1 [] (world s1) s2" using getLastIP_effect [of s1] by (simp add: l)
  have l_eq: "l = fst (getLastIP s)"
    using getLastIP_fst [of s1 s] e1(2) l by (simp add: advances_def same_store_def)
  have e12: "advances s [IpLookup cur] w1 s2"
    using advances_trans [OF e1(2) e2] e1(2) by (simp add: advances_def)
  define s3 where "s3 = log (IpChanged l (the cur)) s2"
  define s4 where "s4 = for_of (updateDNS_body_indexjs env (the cur)) (managed s3) s3"
  have e3: "advances s [IpLookup cur] w1 s3"
    using advances_log [OF e12] by (simp add: s3_def)
  have m3: "managed s3 = managed s" and w3: "world s3 = w1"
    using e3 by (simp_all add: advances_def same_store_managed)
  have loop: "advances s3 (fst (attempts (attempt_update_only env (the cur)) (managed s) w1))
                (snd (attempts (attempt_update_only env (the cur)) (managed s) w1)) s4"
    using for_of_effect [of "attempt_update_only env (the cur)" "updateDNS_body_indexjs env (the cur)" s3 "managed s3",
        OF updateDNS_body_indexjs_effect]
    by (simp add: s4_def m3 w3)
  have e4: "advances s (IpLookup cur # fst (attempts (attempt_update_only env (the cur)) (managed s) w1))
              (snd (attempts (attempt_update_only env (the cur)) (managed s) w1)) s4"
    using advances_trans [OF e3 loop] by simp
  have wr4: "ip_file_writable s4 = ip_file_writable s"
    using e4 by (simp add: advances_def same_store_def)
  have u: "updateDNS_indexjs env s =
             (case saveLastIP (the cur) s4 of Some s5 \<Rightarrow> (Returned (), s5) | None \<Rightarrow> (Threw, s4))"
  proof -
    have "cur \<noteq> l" using ne l_eq by (simp add: cur_def)
    then show ?thesis
      unfolding s4_def s3_def using t e1(1)
      by (simp add: updateDNS_indexjs_def ip l Let_def cur_def [symmetric] split: option.splits)
  qed
  show ?thesis
    using e4 unfolding cur_def [symmetric] w1_def [symmetric]
    by (simp add: u saveLastIP_effect wr4 advances_def same_store_def emit_def)
qed

section \<open>Zones looked up, calls made\<close>

lemma zones_attempted_Nil: "zones_attempted [] = []"
  by (simp add: zones_attempted_def List.map_filter_simps)

lemma zones_attempted_Cons:
  "zones_attempted (e # es) =
     (case zone_looked_up e of None \<Rightarrow> zones_attempted es | Some z \<Rightarrow> z # zones_attempted es)"
  unfolding zones_attempted_def by (simp add: List.map_filter_simps)

lemma zones_attempted_append:
  "zones_attempted (xs @ ys) = zones_attempted xs @ zones_attempted ys"
  by (induction xs) (simp_all add: zones_attempted_Nil zones_attempted_Cons split: option.splits)

lemma zones_attempted_attempt: "zones_attempted (fst (attempt env ip d w)) = [zone d]"
  by (simp add: attempt_def zones_attempted_Cons zones_attempted_Nil split: prod.splits)

lemma zones_attempted_attempt_update_only:
  "zones_attempted (fst (attempt_update_only env ip d w)) = [zone d]"
  by (simp add: attempt_update_only_def zones_attempted_Cons zones_attempted_Nil split: prod.splits)

lemma zones_attempted_attempts:
  assumes one: "\<And>d w. zones_attempted (fst (a d w)) = [zone d]"
  shows "zones_attempted (fst (attempts a ds w)) = map zone ds"
  by (induction ds arbitrary: w) (simp_all add: zones_attempted_Nil zones_attempted_append one split_beta)

lemma ip_write_free_attempt: "filter is_ip_write (fst (attempt env ip d w)) = []"
  by (simp add: attempt_def split: prod.splits)

lemma ip_write_free_attempt_update_only:
  "filter is_ip_write (fst (attempt_update_only env ip d w)) = []"
  by (simp add: attempt_update_only_def split: prod.splits)

lemma ip_write_free_attempts:
  assumes one: "\<And>d w. filter is_ip_write (fst (a d w)) = []"
  shows "filter is_ip_write (fst (attempts a ds w)) = []"
  by (induction ds arbitrary: w) (simp_all add: one split_beta)



section \<open>The pass after an addition\<close>

lemma post_domains_reconcile_via_body:
  "post_domains_reconcile env d s =
     (case getPublicIP env s of
        (currentIP, s1) \<Rightarrow>
          if \<not> truthy currentIP then (Response 500 (Message NoPublicIP), s1)
          else if \<not> truthy (fst (getZoneID env (zone d) s1))
          then (Response 400 (Message (ZoneIDNotFound (zone d))),
                updateDNS_body env (the currentIP) d s1)
          else
            (case getLastIP (updateDNS_body env (the currentIP) d s1) of
               (lastIP, s5) \<Rightarrow>
                 if currentIP \<noteq> lastIP
                 then
                   (case saveLastIP (the currentIP) s5 of
                      Some s6 \<Rightarrow> (Response 201 (MessageDomains AddedAndUpdated (managed s6)), s6)
                    | None \<Rightarrow> (Response 500 (Message AddFailed), errorLog AddError s5))
                 else (Response 201 (MessageDomains AddedAndUpdated (managed s5)), s5)))"
  by (simp add: post_domains_reconcile_def updateDNS_body_def Let_def split: prod.splits)

lemma post_domains_reconcile_no_ip:
  assumes f: "\<not> truthy (resolved (fst (ipify env (world s))))"
  shows "fst (post_domains_reconcile env d s) = Response 500 (Message NoPublicIP) \<and>
         advances s [IpLookup (resolved (fst (ipify env (world s))))] (snd (ipify env (world s)))
           (snd (post_domains_reconcile env d s))"
proof -
  obtain c s1 where ip: "getPublicIP env s = (c, s1)" by (cases "getPublicIP env s")
  have e1: "c = resolved (fst (ipify env (world s)))"
    "advances s [IpLookup (resolved (fst (ipify env (world s))))] (snd (ipify env (world s))) s1"
    using getPublicIP_effect [of env s] by (simp_all add: ip)
  show ?thesis using f e1 by (simp add: post_domains_reconcile_via_body ip)
qed

lemma post_domains_reconcile_attempt:
  assumes t: "truthy (resolved (fst (ipify env (world s))))"
  shows "\<exists>sb. advances s
                (IpLookup (resolved (fst (ipify env (world s)))) #
                 fst (attempt env (the (resolved (fst (ipify env (world s))))) d
                        (snd (ipify env (world s)))))
                (snd (attempt env (the (resolved (fst (ipify env (world s))))) d
                        (snd (ipify env (world s))))) sb \<and>
              post_domains_reconcile env d s =
                (if \<not> truthy (found (fst (cf_zones env (zone d) (snd (ipify env (world s))))))
                 then (Response 400 (Message (ZoneIDNotFound (zone d))), sb)
                 else if fst (getLastIP s) \<noteq> resolved (fst (ipify env (world s)))
                 then
                   (case saveLastIP (the (resolved (fst (ipify env (world s))))) (snd (getLastIP sb)) of
                      Some s6 \<Rightarrow> (Response 201 (MessageDomains AddedAndUpdated (managed s6)), s6)
                    | None \<Rightarrow>
                        (Response 500 (Message AddFailed), errorLog AddError (snd (getLastIP sb))))
                 else (Response 201 (MessageDomains AddedAndUpdated (managed (snd (getLastIP sb)))),
                       snd (getLastIP sb)))"
proof -
  define cur where "cur = resolved (fst (ipify env (world s)))"
  define w1 where "w1 = snd (ipify env (world s))"
  obtain c s1 where ip: "getPublicIP env s = (c, s1)" by (cases "getPublicIP env s")
  have e1: "c = cur" "advances s [IpLookup cur] w1 s1"
    using getPublicIP_effect [of env s] by (simp_all add: ip cur_def w1_def)
  have ws1: "world s1 = w1" using e1(2) by (simp add: advances_def)
  define sb where "sb = updateDNS_body env (the cur) d s1"
  have eb: "advances s1 (fst (attempt env (the cur) d w1)) (snd (attempt env (the cur) d w1)) sb"
    using updateDNS_body_effect [of s1 env "the cur" d] by (simp add: sb_def ws1)
  have e: "advances s (IpLookup cur # fst (attempt env (the cur) d w1))
             (snd (attempt env (the cur) d w1)) sb"
    using advances_trans [OF e1(2) eb] by simp
  have z: "fst (getZoneID env (zone d) s1) = found (fst (cf_zones env (zone d) w1))"
    using getZoneID_effect [of env "zone d" s1] by (simp add: ws1)
  have l: "fst (getLastIP sb) = fst (getLastIP s)"
    using getLastIP_fst [of sb s] e by (simp add: advances_def same_store_def)
  have "post_domains_reconcile env d s =
                (if \<not> truthy (found (fst (cf_zones env (zone d) w1)))
                 then (Response 400 (Message (ZoneIDNotFound (zone d))), sb)
                 else if fst (getLastIP s) \<noteq> cur
                 then
                   (case saveLastIP (the cur) (snd (getLastIP sb)) of
                      Some s6 \<Rightarrow> (Response 201 (MessageDomains AddedAndUpdated (managed s6)), s6)
                    | None \<Rightarrow>
                        (Response 500 (Message AddFailed), errorLog AddError (snd (getLastIP sb))))
                 else (Response 201 (MessageDomains AddedAndUpdated (managed (snd (getLastIP sb)))),
                       snd (getLastIP sb)))"
    using t e1(1) z l unfolding sb_def
    by (auto simp: post_domains_reconcile_via_body ip cur_def [symmetric] split_beta)
  with e show ?thesis unfolding cur_def w1_def by blast
qed

lemma post_domains_reconcile_no_zone:
  assumes t: "truthy (resolved (fst (ipify env (world s))))"
    and nz: "\<not> truthy (found (fst (cf_zones env (zone d) (snd (ipify env (world s))))))"
  shows "fst (post_domains_reconcile env d s) = Response 400 (Message (ZoneIDNotFound (zone d))) \<and>
         advances s
           (IpLookup (resolved (fst (ipify env (world s)))) #
            fst (attempt env (the (resolved (fst (ipify env (world s))))) d
                   (snd (ipify env (world s)))))
           (snd (attempt env (the (resolved (fst (ipify env (world s))))) d
                   (snd (ipify env (world s)))))
           (snd (post_domains_reconcile env d s))"
  using post_domains_reconcile_attempt [OF t, of d] nz by auto

lemma post_domains_reconcile_upsert:
  assumes t: "truthy (resolved (fst (ipify env (world s))))"
    and z: "truthy (found (fst (cf_zones env (zone d) (snd (ipify env (world s))))))"
  shows "fst (post_domains_reconcile env d s) =
           (if fst (getLastIP s) \<noteq> resolved (fst (ipify env (world s))) \<and> \<not> ip_file_writable s
            then Response 500 (Message AddFailed)
            else Response 201 (MessageDomains AddedAndUpdated (managed s))) \<and>
         trace (snd (post_domains_reconcile env d s)) =
           trace s @ IpLookup (resolved (fst (ipify env (world s)))) #
             fst (attempt env (the (resolved (fst (ipify env (world s))))) d
                    (snd (ipify env (world s)))) @
             (if fst (getLastIP s) \<noteq> resolved (fst (ipify env (world s))) \<and> ip_file_writable s
              then [WriteIPFile (the (resolved (fst (ipify env (world s)))))] else []) \<and>
         world (snd (post_domains_reconcile env d s)) =
           snd (attempt env (the (resolved (fst (ipify env (world s))))) d
                  (snd (ipify env (world s)))) \<and>
         same_store
           (if fst (getLastIP s) \<noteq> resolved (fst (ipify env (world s))) \<and> ip_file_writable s
            then s\<lparr>ip_file := Holds (the (resolved (fst (ipify env (world s)))))\<rparr> else s)
           (snd (post_domains_reconcile env d s))"
proof -
  define cur where "cur = resolved (fst (ipify env (world s)))"
  define A where "A = attempt env (the cur) d (snd (ipify env (world s)))"
  from post_domains_reconcile_attempt [OF t, of d]
  obtain sb where sb: "advances s (IpLookup cur # fst A) (snd A) sb"
    and p: "post_domains_reconcile env d s =
              (if fst (getLastIP s) \<noteq> cur
               then
                 (case saveLastIP (the cur) (snd (getLastIP sb)) of
                    Some s6 \<Rightarrow> (Response 201 (MessageDomains AddedAndUpdated (managed s6)), s6)
                  | None \<Rightarrow>
                      (Response 500 (Message AddFailed), errorLog AddError (snd (getLastIP sb))))
               else (Response 201 (MessageDomains AddedAndUpdated (managed (snd (getLastIP sb)))),
                     snd (getLastIP sb)))"
    using z unfolding cur_def A_def by auto
  define s5 where "s5 = snd (getLastIP sb)"
  have e5: "advances s (IpLookup cur # fst A) (snd A) s5"
    using advances_trans [OF sb getLastIP_effect [of sb]] sb
    by (simp add: s5_def advances_def)
  have st5: "ip_file_writable s5 = ip_file_writable s" "managed s5 = managed s"
    using e5 by (simp_all add: advances_def same_store_def managed_def)
  show ?thesis
    using e5 unfolding cur_def [symmetric] A_def [symmetric]
    by (simp add: p s5_def [symmetric] saveLastIP_effect st5 advances_def same_store_def
        emit_def errorLog_def managed_def)
qed

section \<open>The commit of the last IP\<close>

lemma commits_after_loop_none: "filter is_ip_write evs = [] \<Longrightarrow> commits_after_loop zs evs"
  by (simp add: commits_after_loop_def)

lemma commits_after_loop_last:
  "filter is_ip_write pre = [] \<Longrightarrow> zones_attempted pre = zs \<Longrightarrow>
     commits_after_loop zs (pre @ [WriteIPFile a])"
  by (simp add: commits_after_loop_def)

lemma commits_after_loop_optional:
  "filter is_ip_write pre = [] \<Longrightarrow> zones_attempted pre = zs \<Longrightarrow>
     commits_after_loop zs (pre @ (if b then [WriteIPFile a] else []))"
  by (simp add: commits_after_loop_def)

lemma updateDNS_commits:
  "commits_after_loop (map zone (managed s)) (new_events s (snd (updateDNS env s)))"
proof (cases "truthy (resolved (fst (ipify env (world s)))) \<and>
              fst (getLastIP s) \<noteq> resolved (fst (ipify env (world s)))")
  case False
  then have "advances s [IpLookup (resolved (fst (ipify env (world s))))] (snd (ipify env (world s)))
               (snd (updateDNS env s))"
    using updateDNS_skip [of env s] by simp
  then show ?thesis by (simp add: advances_new_events commits_after_loop_none)
next
  case True
  define cur where "cur = resolved (fst (ipify env (world s)))"
  define A where "A = attempts (attempt env (the cur)) (managed s) (snd (ipify env (world s)))"
  have tr: "trace (snd (updateDNS env s)) =
              trace s @ (IpLookup cur # fst A) @
                (if ip_file_writable s then [WriteIPFile (the cur)] else [])"
    using updateDNS_proceed [of env s] True by (simp add: cur_def A_def)
  have ev: "new_events s (snd (updateDNS env s)) =
              (IpLookup cur # fst A) @ (if ip_file_writable s then [WriteIPFile (the cur)] else [])"
    using new_events_append [OF tr] .
  have z: "zones_attempted (fst A) = map zone (managed s)"
    unfolding A_def using zones_attempted_attempts [of "attempt env (the cur)", OF zones_attempted_attempt] .
  have w: "filter is_ip_write (fst A) = []"
    unfolding A_def using ip_write_free_attempts [of "attempt env (the cur)", OF ip_write_free_attempt] .
  show ?thesis unfolding ev
    by (rule commits_after_loop_optional) (simp_all add: z w zones_attempted_Cons)
qed

lemma updateDNS_indexjs_commits:
  "commits_after_loop (map zone (managed s)) (new_events s (snd (updateDNS_indexjs env s)))"
proof (cases "truthy (resolved (fst (ipify env (world s)))) \<and>
              fst (getLastIP s) \<noteq> resolved (fst (ipify env (world s)))")
  case False
  then have "advances s [IpLookup (resolved (fst (ipify env (world s))))] (snd (ipify env (world s)))
               (snd (updateDNS_indexjs env s))"
    using updateDNS_indexjs_skip [of env s] by simp
  then show ?thesis by (simp add: advances_new_events commits_after_loop_none)
next
  case True
  define cur where "cur = resolved (fst (ipify env (world s)))"
  define A where
    "A = attempts (attempt_update_only env (the cur)) (managed s) (snd (ipify env (world s)))"
  have tr: "trace (snd (updateDNS_indexjs env s)) =
              trace s @ (IpLookup cur # fst A) @
                (if ip_file_writable s then [WriteIPFile (the cur)] else [])"
    using updateDNS_indexjs_proceed [of env s] True by (simp add: cur_def A_def)
  have ev: "new_events s (snd (updateDNS_indexjs env s)) =
              (IpLookup cur # fst A) @ (if ip_file_writable s then [WriteIPFile (the cur)] else [])"
    using new_events_append [OF tr] .
  have z: "zones_attempted (fst A) = map zone (managed s)"
    unfolding A_def
    using zones_attempted_attempts
            [of "attempt_update_only env (the cur)", OF zones_attempted_attempt_update_only] .
  have w: "filter is_ip_write (fst A) = []"
    unfolding A_def
    using ip_write_free_attempts
            [of "attempt_update_only env (the cur)", OF ip_write_free_attempt_update_only] .
  show ?thesis unfolding ev
    by (rule commits_after_loop_optional) (simp_all add: z w zones_attempted_Cons)
qed

lemma post_domains_reconcile_commits:
  "commits_after_loop [zone d] (new_events s (snd (post_domains_reconcile env d s)))"
proof (cases "truthy (resolved (fst (ipify env (world s))))")
  case False
  then have "advances s [IpLookup (resolved (fst (ipify env (world s))))] (snd (ipify env (world s)))
               (snd (post_domains_reconcile env d s))"
    using post_domains_reconcile_no_ip [of env s d] by simp
  then show ?thesis by (simp add: advances_new_events commits_after_loop_none)
next
  case True
  define cur where "cur = resolved (fst (ipify env (world s)))"
  define A where "A = attempt env (the cur) d (snd (ipify env (world s)))"
  have z: "zones_attempted (fst A) = [zone d]" unfolding A_def by (rule zones_attempted_attempt)
  have w: "filter is_ip_write (fst A) = []" unfolding A_def by (rule ip_write_free_attempt)
  show ?thesis
  proof (cases "truthy (found (fst (cf_zones env (zone d) (snd (ipify env (world s))))))")
    case nz: False
    have "advances s (IpLookup cur # fst A) (snd A) (snd (post_domains_reconcile env d s))"
      using post_domains_reconcile_no_zone [OF True nz] by (simp add: cur_def A_def)
    then show ?thesis by (simp add: advances_new_events commits_after_loop_none w)
  next
    case zt: True
    have tr: "trace (snd (post_domains_reconcile env d s)) =
                trace s @ (IpLookup cur # fst A) @
                  (if fst (getLastIP s) \<noteq> cur \<and> ip_file_writable s
                   then [WriteIPFile (the cur)] else [])"
      using post_domains_reconcile_upsert [OF True zt] by (simp add: cur_def A_def)
    show ?thesis unfolding new_events_append [OF tr]
      by (rule commits_after_loop_optional) (simp_all add: z w zones_attempted_Cons)
  qed
qed

section \<open>The attempt, case by case\<close>






section \<open>The handler of an addition\<close>

lemma post_domains_add_accepted:
  assumes acc: "accepted req s"
  shows "post_domains_add req s =
           (if domains_file_writable s
            then (Returned (Inr (requested req)),
                  log (DomainAdded (zone (requested req)) (recordName (requested req)))
                    (emit (WriteDomainsFile (managed s @ [requested req])) (added (requested req) s)))
            else (Threw, push (requested req) s))"
  using acc
  by (simp add: post_domains_add_def accepted_def same_pair_def requested_def saveDomains_def
      push_def added_def managed_def emit_def Let_def)

lemma post_domains_add_rejected:
  assumes rej: "\<not> accepted req s"
  shows "post_domains_add req s =
           (Returned (Inl (Response 400 (Message
              (if \<not> truthy_js (body_zone req) \<or> \<not> truthy_js (body_record req)
               then FieldsRequired else DomainExists)))), s)"
  using rej
  by (auto simp add: post_domains_add_def accepted_def same_pair_def requested_def)





section \<open>The loop under a schedule\<close>

lemma run_Finished: "run body as (Finished s) = Finished s"
  by (induction as) simp_all

lemma run_append: "run body (xs @ ys) c = run body ys (run body xs c)"
  by (induction xs arbitrary: c) simp_all

lemma extends_trace:
  assumes p: "take (length tr0) t = tr0"
  shows "take (length tr0) (t @ evs) = tr0 \<and>
         drop (length tr0) (t @ evs) = drop (length tr0) t @ evs"
proof -
  have "length (take (length tr0) t) = length tr0" by (simp only: p)
  then have "length tr0 \<le> length t" by simp
  then show ?thesis using p by simp
qed

lemma loop_body_effect:
  assumes "body = updateDNS_body env ip \<or> body = updateDNS_body_indexjs env ip"
  shows "\<exists>evs. trace (body d s) = trace s @ evs \<and> zones_attempted evs = [zone d] \<and>
               same_store s (body d s)"
proof -
  from assms show ?thesis
  proof
    assume b: "body = updateDNS_body env ip"
    have "advances s (fst (attempt env ip d (world s))) (snd (attempt env ip d (world s)))
            (body d s)"
      unfolding b by (rule updateDNS_body_effect)
    then show ?thesis
      using zones_attempted_attempt [of env ip d "world s"] by (auto simp add: advances_def)
  next
    assume b: "body = updateDNS_body_indexjs env ip"
    have "advances s (fst (attempt_update_only env ip d (world s)))
            (snd (attempt_update_only env ip d (world s))) (body d s)"
      unfolding b by (rule updateDNS_body_indexjs_effect)
    then show ?thesis
      using zones_attempted_attempt_update_only [of env ip d "world s"]
      by (auto simp add: advances_def)
  qed
qed

lemma post_domains_add_store:
  "fresh (snd (post_domains_add req s)) = fresh s \<and>
   domains (snd (post_domains_add req s)) = domains s \<and>
   (\<exists>evs. trace (snd (post_domains_add req s)) = trace s @ evs \<and> zones_attempted evs = []) \<and>
   (\<forall>a. a \<noteq> domains s \<longrightarrow> arrays (snd (post_domains_add req s)) a = arrays s a) \<and>
   arrays (snd (post_domains_add req s)) (domains s) =
     (if accepted req s then managed s @ [requested req] else managed s)"
proof (cases "accepted req s")
  case True
  show ?thesis
    using True
    by (simp add: post_domains_add_accepted [OF True] added_def push_def log_def emit_def
        managed_def zones_attempted_Nil zones_attempted_Cons)
next
  case False
  show ?thesis
    using False
    by (simp add: post_domains_add_rejected [OF False] managed_def zones_attempted_Nil)
qed

lemma delete_domains_store:
  "fresh s \<le> fresh (snd (delete_domains req s)) \<and>
   (domains s < fresh s \<longrightarrow> domains (snd (delete_domains req s)) < fresh (snd (delete_domains req s))) \<and>
   (\<exists>evs. trace (snd (delete_domains req s)) = trace s @ evs \<and> zones_attempted evs = []) \<and>
   (\<forall>a. a < fresh s \<longrightarrow> arrays (snd (delete_domains req s)) a = arrays s a)"
  by (auto simp add: delete_domains_def Let_def saveDomains_def assign_filter_def log_def emit_def
      managed_def zones_attempted_Nil zones_attempted_Cons)

lemma step_invariant:
  assumes body: "body = updateDNS_body env ip \<or> body = updateDNS_body_indexjs env ip"
    and inv: "pass_invariant a0 tr0 c"
  shows "pass_invariant a0 tr0 (step body a c) \<and>
         (\<exists>more. arrays (loop_state (step body a c)) a0 = arrays (loop_state c) a0 @ more \<and>
                 set more \<subseteq> set (added_pairs [a]))"
proof (cases c)
  case (Finished s)
  then show ?thesis using inv by simp
next
  case (Running it s)
  from inv have i: "it_array it = a0" "it_index it \<le> length (arrays s a0)"
    "a0 < fresh s" "domains s < fresh s" "take (length tr0) (trace s) = tr0"
    "zones_attempted (drop (length tr0) (trace s)) = map zone (take (it_index it) (arrays s a0))"
    by (simp_all add: Running)
  show ?thesis
  proof (cases a)
    case Iterate
    show ?thesis
    proof (cases "it_index it < length (arrays s a0)")
      case True
      define d where "d = arrays s a0 ! it_index it"
      obtain evs1 where e: "trace (body d s) = trace s @ evs1" "zones_attempted evs1 = [zone d]"
        "same_store s (body d s)"
        using loop_body_effect [OF body, of d s] by blast
      have arr: "arrays (body d s) = arrays s" "fresh (body d s) = fresh s"
        "domains (body d s) = domains s"
        using e(3) by (simp_all add: same_store_def)
      have st: "step body a c = Running (it\<lparr>it_index := Suc (it_index it)\<rparr>) (body d s)"
        using True by (simp add: Running Iterate i(1) d_def)
      have t: "take (length tr0) (trace (body d s)) = tr0"
        "drop (length tr0) (trace (body d s)) = drop (length tr0) (trace s) @ evs1"
        using extends_trace [OF i(5), of evs1] by (simp_all add: e(1))
      have z: "zones_attempted (drop (length tr0) (trace (body d s))) =
                 map zone (take (Suc (it_index it)) (arrays s a0))"
        by (simp add: t(2) zones_attempted_append i(6) e(2) take_Suc_conv_app_nth [OF True]
            d_def [symmetric])
      show ?thesis
        unfolding st using True i(1,3,4) t(1) z by (simp add: arr Running)
    next
      case False
      then have full: "it_index it = length (arrays s a0)" using i(2) by simp
      have st: "step body a c = Finished s" using False by (simp add: Running Iterate i(1))
      show ?thesis unfolding st using i(5,6) full by (simp add: Running)
    qed
  next
    case (Add req)
    define s1 where "s1 = snd (post_domains_add req s)"
    have st: "step body a c = Running it s1" by (simp add: Running Add s1_def)
    have f: "fresh s1 = fresh s" "domains s1 = domains s"
      and other: "\<And>b. b \<noteq> domains s \<Longrightarrow> arrays s1 b = arrays s b"
      and here: "arrays s1 (domains s) =
                   (if accepted req s then managed s @ [requested req] else managed s)"
      using post_domains_add_store [of req s] unfolding s1_def by auto
    obtain evs1 where e: "trace s1 = trace s @ evs1" "zones_attempted evs1 = []"
      using post_domains_add_store [of req s] unfolding s1_def by blast
    obtain more where m: "arrays s1 a0 = arrays s a0 @ more" "set more \<subseteq> {requested req}"
    proof (cases "a0 = domains s")
      case True
      have "arrays s1 a0 = arrays s a0 @ (if accepted req s then [requested req] else [])"
        using here True by (simp add: managed_def)
      moreover have "set (if accepted req s then [requested req] else []) \<subseteq> {requested req}"
        by auto
      ultimately show ?thesis using that by blast
    next
      case False
      show ?thesis using that [of "[]"] other [OF False] by simp
    qed
    have t: "take (length tr0) (trace s1) = tr0"
      "drop (length tr0) (trace s1) = drop (length tr0) (trace s) @ evs1"
      using extends_trace [OF i(5), of evs1] by (simp_all add: e(1))
    have z: "zones_attempted (drop (length tr0) (trace s1)) =
               map zone (take (it_index it) (arrays s1 a0))"
      using i(2) by (simp add: t(2) zones_attempted_append i(6) e(2) m(1))
    show ?thesis
      unfolding st using i(1,2,3,4) t(1) z m by (simp add: f Running Add)
  next
    case (Remove req)
    define s1 where "s1 = snd (delete_domains req s)"
    have st: "step body a c = Running it s1" by (simp add: Running Remove s1_def)
    have f: "fresh s \<le> fresh s1" "domains s1 < fresh s1"
      and old: "\<And>b. b < fresh s \<Longrightarrow> arrays s1 b = arrays s b"
      using delete_domains_store [of s req] i(4) unfolding s1_def by auto
    obtain evs1 where e: "trace s1 = trace s @ evs1" "zones_attempted evs1 = []"
      using delete_domains_store [of s req] unfolding s1_def by blast
    have m: "arrays s1 a0 = arrays s a0" using old [OF i(3)] .
    have t: "take (length tr0) (trace s1) = tr0"
      "drop (length tr0) (trace s1) = drop (length tr0) (trace s) @ evs1"
      using extends_trace [OF i(5), of evs1] by (simp_all add: e(1))
    have z: "zones_attempted (drop (length tr0) (trace s1)) =
               map zone (take (it_index it) (arrays s1 a0))"
      by (simp add: t(2) zones_attempted_append i(6) e(2) m)
    show ?thesis
      unfolding st using i(1,2,3) f t(1) z m by (simp add: Running Remove)
  qed
qed

lemma added_pairs_Cons: "set (added_pairs (a # as)) = set (added_pairs [a]) \<union> set (added_pairs as)"
  by (cases a) simp_all

lemma run_invariant:
  assumes body: "body = updateDNS_body env ip \<or> body = updateDNS_body_indexjs env ip"
  shows "pass_invariant a0 tr0 c \<Longrightarrow>
         pass_invariant a0 tr0 (run body as c) \<and>
         (\<exists>more. arrays (loop_state (run body as c)) a0 = arrays (loop_state c) a0 @ more \<and>
                 set more \<subseteq> set (added_pairs as))"
proof (induction as arbitrary: c)
  case Nil
  then show ?case by simp
next
  case (Cons a as)
  from step_invariant [OF body Cons.prems, of a]
  obtain m1 where s1: "pass_invariant a0 tr0 (step body a c)"
    and m1: "arrays (loop_state (step body a c)) a0 = arrays (loop_state c) a0 @ m1"
      "set m1 \<subseteq> set (added_pairs [a])"
    by blast
  from Cons.IH [OF s1]
  obtain m2 where s2: "pass_invariant a0 tr0 (run body as (step body a c))"
    and m2: "arrays (loop_state (run body as (step body a c))) a0 =
               arrays (loop_state (step body a c)) a0 @ m2"
      "set m2 \<subseteq> set (added_pairs as)"
    by blast
  have r: "run body (a # as) c = run body as (step body a c)" by simp
  have a: "arrays (loop_state (run body (a # as) c)) a0 = arrays (loop_state c) a0 @ (m1 @ m2)"
    unfolding r using m1(1) m2(1) by simp
  have b: "set (m1 @ m2) \<subseteq> set (added_pairs (a # as))"
    using m1(2) m2(2) added_pairs_Cons [of a as] by (simp only: set_append) blast
  have "\<exists>more. arrays (loop_state (run body (a # as) c)) a0 = arrays (loop_state c) a0 @ more \<and>
                 set more \<subseteq> set (added_pairs (a # as))"
    using a b by (rule_tac x = "m1 @ m2" in exI) (rule conjI)
  moreover have "pass_invariant a0 tr0 (run body (a # as) c)" unfolding r by (rule s2)
  ultimately show ?case by (rule_tac conjI)
qed

lemma added_pairs_none: "\<not> list_ex is_add as \<Longrightarrow> added_pairs as = []"
proof (induction as)
  case Nil
  show ?case by simp
next
  case (Cons a as)
  then show ?case by (cases a) simp_all
qed

lemma start_loop_invariant:
  "domains s < fresh s \<Longrightarrow> pass_invariant (domains s) (trace s) (start_loop s)"
  by (simp add: start_loop_def zones_attempted_Nil)

lemma run_undisturbed_from:
  assumes body: "body = updateDNS_body env ip \<or> body = updateDNS_body_indexjs env ip"
  shows "i \<le> length (arrays s a0) \<Longrightarrow> n = length (arrays s a0) - i \<Longrightarrow>
         run body (replicate (Suc n) Iterate) (Running \<lparr>it_array = a0, it_index = i\<rparr> s) =
           Finished (for_of body (drop i (arrays s a0)) s)"
proof (induction n arbitrary: i s)
  case 0
  then show ?case by simp
next
  case (Suc n)
  then have lt: "i < length (arrays s a0)" by simp
  define d where "d = arrays s a0 ! i"
  have arr: "arrays (body d s) = arrays s"
    using loop_body_effect [OF body, of d s] by (auto simp: same_store_def)
  have dr: "drop i (arrays s a0) = d # drop (Suc i) (arrays s a0)"
    using lt by (simp add: d_def Cons_nth_drop_Suc)
  have le: "Suc i \<le> length (arrays s a0)" using lt by simp
  have n_eq: "n = length (arrays s a0) - Suc i" using Suc.prems by simp
  have ih: "run body (replicate (Suc n) Iterate)
              (Running \<lparr>it_array = a0, it_index = Suc i\<rparr> (body d s)) =
            Finished (for_of body (drop (Suc i) (arrays s a0)) (body d s))"
    using Suc.IH [of "Suc i" "body d s", unfolded arr, OF le n_eq] .
  have st: "step body Iterate (Running \<lparr>it_array = a0, it_index = i\<rparr> s) =
              Running \<lparr>it_array = a0, it_index = Suc i\<rparr> (body d s)"
    using lt by (simp add: d_def)
  have "run body (replicate (Suc (Suc n)) Iterate) (Running \<lparr>it_array = a0, it_index = i\<rparr> s) =
          run body (replicate (Suc n) Iterate) (step body Iterate (Running \<lparr>it_array = a0, it_index = i\<rparr> s))"
    by (simp only: replicate_Suc run.simps)
  also have "\<dots> = Finished (for_of body (drop (Suc i) (arrays s a0)) (body d s))"
    unfolding st using ih .
  also have "\<dots> = Finished (for_of body (drop i (arrays s a0)) s)"
    by (simp add: dr)
  finally show ?case .
qed

lemma run_undisturbed:
  assumes body: "body = updateDNS_body env ip \<or> body = updateDNS_body_indexjs env ip"
  shows "run body (replicate (Suc (length (managed s))) Iterate) (start_loop s) =
           Finished (for_of body (managed s) s)"
  using run_undisturbed_from [OF body, of 0 s "domains s" "length (managed s)"]
  by (simp add: start_loop_def managed_def)

section \<open>Unfolding the program on concrete inputs\<close>

lemmas model_defs =
  updateDNS_def updateDNS_indexjs_def updateDNS_body_def updateDNS_body_indexjs_def
  getPublicIP_def getZoneID_def getDNSRecordID_def getDNSRecordID_indexjs_def
  createDNSRecord_def updateDNSRecord_def getLastIP_def saveLastIP_def saveDomains_def
  post_domains_add_def post_domains_reconcile_def post_domains_def
  delete_domains_def get_domains_def handle_def authenticate_def push_def assign_filter_def
  emit_def log_def errorLog_def managed_def new_events_def trim_def js_whitespace_def

lemmas setting_defs =
  fixed_services_def initial_def home_def office_def lost_def cloud_def add_request_def


section \<open>Create or update\<close>




section \<open>The fast path of the timer pass\<close>



section \<open>One commit, after the loop\<close>

text \<open>
  C3. In every pass (the timer pass of part_000 and of index.js, and the pass after an
  addition) the file of the last IP is written at most once; when it is written, the
  write is the last event of the pass, and before it the zone of every domain of the pass
  has been looked up, whatever the outcome for each domain.
\<close>

theorem last_ip_committed_once_after_loop:
  "commits_after_loop (map zone (managed s)) (new_events s (snd (updateDNS env s))) \<and>
   commits_after_loop (map zone (managed s)) (new_events s (snd (updateDNS_indexjs env s))) \<and>
   commits_after_loop [zone d] (new_events s (snd (post_domains_reconcile env d s)))"
  by (simp add: updateDNS_commits updateDNS_indexjs_commits post_domains_reconcile_commits)

section \<open>Failure of the IP resolver\<close>

text \<open>
  C4. When the IP resolver fails, or returns no IP, at the start of a pass, the pass ends
  there: its only event is the call of the resolver, no provider call is made (the outside
  world is the one the resolver left), and the arrays, the variable \<^verbatim>\<open>domains\<close>, the file
  of the domains and the file of the last IP are as they were. This holds for the timer
  pass, which returns, and for the pass after an addition, which answers 500.
\<close>

theorem ip_failure_aborts_pass:
  assumes ip: "getPublicIP env s = (cur, s1)" and f: "\<not> truthy cur"
  shows "new_events s (snd (updateDNS env s)) = [IpLookup cur] \<and>
         same_store s (snd (updateDNS env s)) \<and>
         new_events s (snd (post_domains_reconcile env d s)) = [IpLookup cur] \<and>
         same_store s (snd (post_domains_reconcile env d s)) \<and>
         fst (post_domains_reconcile env d s) = Response 500 (Message NoPublicIP) \<and>
         fst (updateDNS env s) = Returned () \<and>
         world (snd (updateDNS env s)) = snd (ipify env (world s)) \<and>
         world (snd (post_domains_reconcile env d s)) = snd (ipify env (world s))"
proof -
  have c: "cur = resolved (fst (ipify env (world s)))"
    using getPublicIP_effect [of env s] by (simp add: ip)
  show ?thesis
    using updateDNS_skip [of env s] post_domains_reconcile_no_ip [of env s d] f
    unfolding c [symmetric]
    by (simp add: advances_def new_events_def)
qed

theorem ip_failure_aborts_pass_witness:
  "getPublicIP (cloud IpFailed (WriteData True)) (initial [home] (Holds ''198.51.100.7'')) =
     (None, snd (getPublicIP (cloud IpFailed (WriteData True)) (initial [home] (Holds ''198.51.100.7'')))) \<and>
   \<not> truthy None \<and>
   new_events (initial [home] (Holds ''198.51.100.7''))
     (snd (updateDNS (cloud IpFailed (WriteData True)) (initial [home] (Holds ''198.51.100.7'')))) =
     [IpLookup None] \<and>
   same_store (initial [home] (Holds ''198.51.100.7''))
     (snd (updateDNS (cloud IpFailed (WriteData True)) (initial [home] (Holds ''198.51.100.7''))))"
proof -
  have h1: "getPublicIP (cloud IpFailed (WriteData True)) (initial [home] (Holds ''198.51.100.7'')) =
     (None, snd (getPublicIP (cloud IpFailed (WriteData True)) (initial [home] (Holds ''198.51.100.7''))))"
    by (simp add: getPublicIP_def fixed_services_def cloud_def initial_def)
  have h2: "\<not> truthy None" by simp
  from ip_failure_aborts_pass [OF h1 h2] h1 h2 show ?thesis by blast
qed


section \<open>Isolation of the domains\<close>



section \<open>The pass after an addition\<close>



section \<open>Addition, persistence and the report to the caller\<close>




section \<open>Duplicates\<close>

text \<open>
  C8 fails in the code. The handler of \<^verbatim>\<open>POST /domains\<close> takes any truthy JSON value as
  \<^verbatim>\<open>zone\<close> and \<^verbatim>\<open>record\<close> and looks for the pair with \<^verbatim>\<open>===\<close>, which holds for no two
  objects of two requests. Send the body
  \<^verbatim>\<open>{"zone": {"name": "example.com"}, "record": "home.example.com"}\<close> twice to a process that
  manages nothing: the first request adds the pair and writes it to disk; the second, for
  the same pair, is not answered with \<^verbatim>\<open>DomainExists\<close> but adds the pair again, in
  part_000 (which answers 400 for the zone it cannot find, after the addition) and in
  index.js (which answers 201). The array and \<^verbatim>\<open>domains.json\<close> then hold the pair twice.
\<close>

theorem object_valued_duplicate_added:
  "managed (snd (handle (Some ''secret'') (cloud (IpData (Some ''203.0.113.5'')) (WriteData True))
                   (add_request boxed) (initial [] Missing))) = [boxed] \<and>
   domains_file (snd (handle (Some ''secret'') (cloud (IpData (Some ''203.0.113.5'')) (WriteData True))
                   (add_request boxed) (initial [] Missing))) = Holds [boxed] \<and>
   fst (handle (Some ''secret'') (cloud (IpData (Some ''203.0.113.5'')) (WriteData True))
          (add_request boxed)
          (snd (handle (Some ''secret'') (cloud (IpData (Some ''203.0.113.5'')) (WriteData True))
                  (add_request boxed) (initial [] Missing)))) =
     Returned (Response 400 (Message (ZoneIDNotFound (zone boxed)))) \<and>
   managed (snd (handle (Some ''secret'') (cloud (IpData (Some ''203.0.113.5'')) (WriteData True))
          (add_request boxed)
          (snd (handle (Some ''secret'') (cloud (IpData (Some ''203.0.113.5'')) (WriteData True))
                  (add_request boxed) (initial [] Missing))))) = [boxed, boxed] \<and>
   domains_file (snd (handle (Some ''secret'') (cloud (IpData (Some ''203.0.113.5'')) (WriteData True))
          (add_request boxed)
          (snd (handle (Some ''secret'') (cloud (IpData (Some ''203.0.113.5'')) (WriteData True))
                  (add_request boxed) (initial [] Missing))))) = Holds [boxed, boxed] \<and>
   fst (post_domains_indexjs (add_request boxed)
          (snd (post_domains_indexjs (add_request boxed) (initial [] Missing)))) =
     Returned (Response 201 (MessageDomains Added [boxed, boxed])) \<and>
   domains_file (snd (post_domains_indexjs (add_request boxed)
          (snd (post_domains_indexjs (add_request boxed) (initial [] Missing))))) =
     Holds [boxed, boxed] \<and>
   \<not> distinct [boxed, boxed]"
  by (simp add: model_defs setting_defs post_domains_indexjs_def boxed_def Let_def)

section \<open>The domains a pass attempts while requests arrive\<close>

text \<open>
  C9 (as amended). The loop of a pass (part_000 and index.js) does not copy the array: it
  iterates over the array object \<^verbatim>\<open>domains\<close> refers to when the loop starts. Under any
  schedule of additions and removals that arrive while the loop awaits, once the loop has
  ended the zones it has looked up are, in order, those of the elements that array object
  holds then: the elements it had when the loop started, followed by pairs that additions
  of the schedule appended to it. A removal assigns a new array to \<^verbatim>\<open>domains\<close> and leaves
  the iterated one alone, so under removals only, the pass attempts exactly the domains
  managed when the loop started. An addition that the handler takes while the loop runs
  and \<^verbatim>\<open>domains\<close> still refers to the iterated array appends its pair to that array, and
  the pass attempts this pair as well. With no request at all the loop is \<open>for_of\<close> on
  the domains managed at its start.
\<close>

theorem pass_iterates_live_array:
  assumes body: "body = updateDNS_body env ip \<or> body = updateDNS_body_indexjs env ip"
    and wf: "domains s < fresh s"
    and fin: "finished (run body as (start_loop s))"
  shows "zones_attempted (new_events s (loop_state (run body as (start_loop s)))) =
           map zone (arrays (loop_state (run body as (start_loop s))) (domains s)) \<and>
         (\<exists>more. arrays (loop_state (run body as (start_loop s))) (domains s) = managed s @ more \<and>
                 set more \<subseteq> set (added_pairs as)) \<and>
         (\<not> list_ex is_add as \<longrightarrow>
            zones_attempted (new_events s (loop_state (run body as (start_loop s)))) =
              map zone (managed s)) \<and>
         (\<forall>pre req post it s1.
            as = pre @ Add req # post \<and> run body pre (start_loop s) = Running it s1 \<and>
            domains s1 = domains s \<and> accepted req s1 \<longrightarrow>
              requested req \<in> set (arrays (loop_state (run body as (start_loop s))) (domains s)) \<and>
              zone (requested req) \<in>
                set (zones_attempted (new_events s (loop_state (run body as (start_loop s)))))) \<and>
         run body (replicate (Suc (length (managed s))) Iterate) (start_loop s) =
           Finished (for_of body (managed s) s)"
proof -
  define a0 where "a0 = domains s"
  define final where "final = run body as (start_loop s)"
  obtain s' where s': "final = Finished s'"
    using fin unfolding final_def by (cases "run body as (start_loop s)") simp_all
  have i0: "pass_invariant a0 (trace s) (start_loop s)"
    unfolding a0_def by (rule start_loop_invariant [OF wf])
  from run_invariant [OF body i0, of as]
  obtain more where inv: "pass_invariant a0 (trace s) final"
    and m: "arrays (loop_state final) a0 = arrays (loop_state (start_loop s)) a0 @ more"
      "set more \<subseteq> set (added_pairs as)"
    unfolding final_def by blast
  have c1: "zones_attempted (new_events s (loop_state final)) = map zone (arrays (loop_state final) a0)"
    using inv by (simp add: s' new_events_def)
  have m': "arrays (loop_state final) a0 = managed s @ more"
    using m(1) by (simp add: start_loop_def managed_def a0_def)
  have c2: "\<exists>more. arrays (loop_state final) a0 = managed s @ more \<and> set more \<subseteq> set (added_pairs as)"
    using m' m(2) by blast
  have c3: "\<not> list_ex is_add as \<longrightarrow>
              zones_attempted (new_events s (loop_state final)) = map zone (managed s)"
    using c1 m' m(2) by (auto simp add: added_pairs_none)
  have c4: "requested req \<in> set (arrays (loop_state final) a0) \<and>
            zone (requested req) \<in> set (zones_attempted (new_events s (loop_state final)))"
    if sp: "as = pre @ Add req # post" and r: "run body pre (start_loop s) = Running it s1"
      and live: "domains s1 = domains s" and acc: "accepted req s1" for pre req post it s1
  proof -
    have i1: "pass_invariant a0 (trace s) (Running it s1)"
      using run_invariant [OF body i0, of pre] by (simp add: r)
    define s2 where "s2 = snd (post_domains_add req s1)"
    have i2: "pass_invariant a0 (trace s) (Running it s2)"
      using step_invariant [OF body i1, of "Add req"] by (simp add: s2_def)
    have "arrays s2 (domains s1) = managed s1 @ [requested req]"
      using post_domains_add_store [of req s1] acc by (simp add: s2_def)
    then have in2: "requested req \<in> set (arrays s2 a0)" by (simp add: live a0_def)
    have f: "final = run body post (Running it s2)"
      unfolding final_def sp by (simp add: run_append r s2_def)
    from run_invariant [OF body i2, of post]
    obtain more2 where "arrays (loop_state final) a0 = arrays s2 a0 @ more2"
      unfolding f by auto
    with in2 have "requested req \<in> set (arrays (loop_state final) a0)" by simp
    then show ?thesis unfolding c1 by simp
  qed
  have c5: "run body (replicate (Suc (length (managed s))) Iterate) (start_loop s) =
           Finished (for_of body (managed s) s)"
    by (rule run_undisturbed [OF body])
  from c1 c2 c3 c4 c5 show ?thesis unfolding final_def a0_def by blast
qed

theorem pass_iterates_live_array_witness:
  "((updateDNS_body (cloud (IpData (Some ''203.0.113.5'')) (WriteData True)) ''203.0.113.5'') = (updateDNS_body (cloud (IpData (Some ''203.0.113.5'')) (WriteData True)) ''203.0.113.5'') \<or>
    (updateDNS_body (cloud (IpData (Some ''203.0.113.5'')) (WriteData True)) ''203.0.113.5'') =
      updateDNS_body_indexjs (cloud (IpData (Some ''203.0.113.5'')) (WriteData True)) ''203.0.113.5'') \<and>
   domains (initial [home, office] Missing) < fresh (initial [home, office] Missing) \<and>
   finished (run (updateDNS_body (cloud (IpData (Some ''203.0.113.5'')) (WriteData True)) ''203.0.113.5'') [Iterate, Remove (remove_request office), Iterate, Iterate]
               (start_loop (initial [home, office] Missing))) \<and>
   \<not> list_ex is_add [Iterate, Remove (remove_request office), Iterate, Iterate] \<and>
   managed (loop_state
     (run (updateDNS_body (cloud (IpData (Some ''203.0.113.5'')) (WriteData True)) ''203.0.113.5'') [Iterate, Remove (remove_request office), Iterate, Iterate]
        (start_loop (initial [home, office] Missing)))) = [home] \<and>
   zones_attempted (new_events (initial [home, office] Missing)
     (loop_state (run (updateDNS_body (cloud (IpData (Some ''203.0.113.5'')) (WriteData True)) ''203.0.113.5'') [Iterate, Remove (remove_request office), Iterate, Iterate]
                    (start_loop (initial [home, office] Missing))))) =
     [JStr ''example.com'', JStr ''b.com''] \<and>
   domains (initial [lost] Missing) < fresh (initial [lost] Missing) \<and>
   finished (run (updateDNS_body (cloud (IpData (Some ''203.0.113.5'')) (WriteData True)) ''203.0.113.5'') ([] @ Add (add_request office) # [Iterate, Iterate, Iterate])
               (start_loop (initial [lost] Missing))) \<and>
   run (updateDNS_body (cloud (IpData (Some ''203.0.113.5'')) (WriteData True)) ''203.0.113.5'') [] (start_loop (initial [lost] Missing)) =
     Running \<lparr>it_array = 0, it_index = 0\<rparr> (initial [lost] Missing) \<and>
   accepted (add_request office) (initial [lost] Missing) \<and>
   requested (add_request office) = office \<and>
   zone office \<in>
     set (zones_attempted (new_events (initial [lost] Missing)
            (loop_state (run (updateDNS_body (cloud (IpData (Some ''203.0.113.5'')) (WriteData True)) ''203.0.113.5'') ([] @ Add (add_request office) # [Iterate, Iterate, Iterate])
                           (start_loop (initial [lost] Missing))))))"
proof -
  define body where "body = (updateDNS_body (cloud (IpData (Some ''203.0.113.5'')) (WriteData True)) ''203.0.113.5'')"
  define s where "s = initial [home, office] Missing"
  define as where "as = [Iterate, Remove (remove_request office), Iterate, Iterate]"
  define s' where "s' = initial [lost] Missing"
  define as' where "as' = [] @ Add (add_request office) # [Iterate, Iterate, Iterate]"
  have h1: "body = (updateDNS_body (cloud (IpData (Some ''203.0.113.5'')) (WriteData True)) ''203.0.113.5'') \<or>
    body = updateDNS_body_indexjs (cloud (IpData (Some ''203.0.113.5'')) (WriteData True)) ''203.0.113.5''"
    by (simp add: body_def)
  have h2: "domains s < fresh s" by (simp add: s_def initial_def)
  have h3: "finished (run body as (start_loop s))"
    by (simp add: body_def s_def as_def start_loop_def model_defs setting_defs remove_request_def
        Let_def found_def)
  have h4: "\<not> list_ex is_add as" by (simp add: as_def)
  have h5: "managed (loop_state (run body as (start_loop s))) = [home]"
    by (simp add: body_def s_def as_def start_loop_def model_defs setting_defs remove_request_def
        Let_def found_def)
  have m: "managed s = [home, office]" by (simp add: s_def managed_def initial_def)
  have k2: "domains s' < fresh s'" by (simp add: s'_def initial_def)
  have k3: "finished (run body as' (start_loop s'))"
    by (simp add: body_def s'_def as'_def start_loop_def model_defs setting_defs Let_def found_def)
  have k4: "run body [] (start_loop s') = Running \<lparr>it_array = 0, it_index = 0\<rparr> s'"
    by (simp add: start_loop_def s'_def initial_def)
  have k5: "domains s' = domains s'" by simp
  have k6: "accepted (add_request office) s'"
    by (simp add: s'_def accepted_def same_pair_def requested_def managed_def setting_defs)
  have k7: "requested (add_request office) = office"
    by (simp add: requested_def setting_defs)
  have k8: "as' = [] @ Add (add_request office) # [Iterate, Iterate, Iterate]"
    by (simp add: as'_def)
  from pass_iterates_live_array [OF h1 h2 h3] h4
  have "zones_attempted (new_events s (loop_state (run body as (start_loop s)))) =
          map zone (managed s)"
    by blast
  then have c1: "zones_attempted (new_events s (loop_state (run body as (start_loop s)))) =
          [JStr ''example.com'', JStr ''b.com'']"
    by (simp add: m home_def office_def)
  from pass_iterates_live_array [OF h1 k2 k3]
  have "\<forall>pre req post it s1.
            as' = pre @ Add req # post \<and> run body pre (start_loop s') = Running it s1 \<and>
            domains s1 = domains s' \<and> accepted req s1 \<longrightarrow>
              requested req \<in> set (arrays (loop_state (run body as' (start_loop s'))) (domains s')) \<and>
              zone (requested req) \<in>
                set (zones_attempted (new_events s' (loop_state (run body as' (start_loop s')))))"
    by blast
  from this [rule_format, of "[]" "add_request office" "[Iterate, Iterate, Iterate]"
               "\<lparr>it_array = 0, it_index = 0\<rparr>" s'] k8 k4 k5 k6
  have c2: "zone office \<in>
                set (zones_attempted (new_events s' (loop_state (run body as' (start_loop s')))))"
    unfolding k7 by blast
  from h1 h2 h3 h4 h5 c1 k2 k3 k4 k6 k7 c2 show ?thesis
    unfolding body_def s_def as_def s'_def as'_def by (intro conjI)
qed

text \<open>
  C9 as stated fails: a domain added after the first iteration of a pass over
  \<^verbatim>\<open>[home]\<close> is attempted by that same pass.
\<close>

theorem add_during_pass_is_attempted:
  "finished (run (updateDNS_body (cloud (IpData (Some ''203.0.113.5'')) (WriteData True)) ''203.0.113.5'') [Iterate, Add (add_request office), Iterate, Iterate]
               (start_loop (initial [home] Missing))) \<and>
   map zone (managed (initial [home] Missing)) = [JStr ''example.com''] \<and>
   new_events (initial [home] Missing)
     (loop_state (run (updateDNS_body (cloud (IpData (Some ''203.0.113.5'')) (WriteData True)) ''203.0.113.5'') [Iterate, Add (add_request office), Iterate, Iterate]
                    (start_loop (initial [home] Missing)))) =
     [ZoneLookup (JStr ''example.com'') (Some ''z1''),
      RecordLookup ''z1'' (JStr ''home.example.com'') (Some ''r1''),
      RecordUpdate ''z1'' ''r1'' (JStr ''home.example.com'') ''203.0.113.5'' True,
      WriteDomainsFile [home, office],
      ZoneLookup (JStr ''b.com'') (Some ''z2''),
      RecordLookup ''z2'' (JStr ''x.b.com'') None,
      RecordCreate ''z2'' (JStr ''x.b.com'') ''203.0.113.5'' True] \<and>
   world (loop_state (run (updateDNS_body (cloud (IpData (Some ''203.0.113.5'')) (WriteData True)) ''203.0.113.5'') [Iterate, Add (add_request office), Iterate, Iterate]
                    (start_loop (initial [home] Missing)))) =
     [GetZones (JStr ''example.com''),
      GetRecords ''z1'' (JStr ''home.example.com''),
      PutRecord ''z1'' ''r1'' (JStr ''home.example.com'') ''203.0.113.5'',
      GetZones (JStr ''b.com''),
      GetRecords ''z2'' (JStr ''x.b.com''),
      PostRecord ''z2'' (JStr ''x.b.com'') ''203.0.113.5'']"
  by (simp add: start_loop_def model_defs setting_defs Let_def)

section \<open>Authentication\<close>

text \<open>
  C10 (as amended). In part_000 a request whose \<^verbatim>\<open>x-api-key\<close> header is not both non-empty
  and equal to the configured \<^verbatim>\<open>API_KEY\<close> does no work, whatever its route (the read-only
  \<^verbatim>\<open>GET /domains\<close> included): the whole state is as it was, and the answer is 401, or,
  when the body parser (which runs before \<^verbatim>\<open>authenticate\<close>) refuses the body, the status
  of the parser. When \<^verbatim>\<open>API_KEY\<close> is not configured every request the parser lets through
  is answered 401. A request the parser lets through with a non-empty header equal to the
  key reaches the handler of its route; \<^verbatim>\<open>GET /domains\<close> then answers 200 with the array.
\<close>

theorem authenticate_rejects_without_key:
  "(\<not> (truthy (x_api_key req) \<and> x_api_key req = API_KEY) \<longrightarrow>
      handle API_KEY env req s =
        (Returned (case parser_error req of
                     None \<Rightarrow> Response 401 (Message Unauthorized)
                   | Some status \<Rightarrow> Response status (Message BodyRejected)), s)) \<and>
   handle None env req s =
     (Returned (case parser_error req of
                  None \<Rightarrow> Response 401 (Message Unauthorized)
                | Some status \<Rightarrow> Response status (Message BodyRejected)), s) \<and>
   (parser_error req = None \<and> truthy (x_api_key req) \<and> x_api_key req = API_KEY \<longrightarrow>
      handle API_KEY env req s =
        (case route req of
           PostDomains \<Rightarrow> post_domains env req s
         | DeleteDomains \<Rightarrow> delete_domains req s
         | GetDomains \<Rightarrow> (Returned (Response 200 (DomainList (managed s))), s)
         | OtherRoute \<Rightarrow> (Returned (Response 404 (Message NoSuchRoute)), s)))"
  by (cases "x_api_key req"; cases "parser_error req")
     (auto simp add: handle_def authenticate_def get_domains_def split: route.splits)

theorem authenticate_rejects_without_key_witness:
  "\<not> (truthy (x_api_key \<lparr>route = GetDomains, x_api_key = Some ''guess'', parser_error = None,
                          body_zone = None, body_record = None\<rparr>) \<and>
      x_api_key \<lparr>route = GetDomains, x_api_key = Some ''guess'', parser_error = None,
                 body_zone = None, body_record = None\<rparr> = Some ''secret'') \<and>
   handle (Some ''secret'') (cloud (IpData (Some ''203.0.113.5'')) (WriteData True))
     \<lparr>route = GetDomains, x_api_key = Some ''guess'', parser_error = None,
      body_zone = None, body_record = None\<rparr> (initial [home] Missing) =
     (Returned (Response 401 (Message Unauthorized)), initial [home] Missing) \<and>
   handle None (cloud (IpData (Some ''203.0.113.5'')) (WriteData True))
     \<lparr>route = DeleteDomains, x_api_key = None, parser_error = None,
      body_zone = Some (zone home), body_record = Some (recordName home)\<rparr> (initial [home] Missing) =
     (Returned (Response 401 (Message Unauthorized)), initial [home] Missing) \<and>
   truthy (x_api_key \<lparr>route = GetDomains, x_api_key = Some ''secret'', parser_error = None,
                      body_zone = None, body_record = None\<rparr>) \<and>
   handle (Some ''secret'') (cloud (IpData (Some ''203.0.113.5'')) (WriteData True))
     \<lparr>route = GetDomains, x_api_key = Some ''secret'', parser_error = None,
      body_zone = None, body_record = None\<rparr> (initial [home] Missing) =
     (Returned (Response 200 (DomainList [home])), initial [home] Missing)"
  using authenticate_rejects_without_key
          [of "\<lparr>route = GetDomains, x_api_key = Some ''guess'', parser_error = None,
                body_zone = None, body_record = None\<rparr>" "Some ''secret''"
              "cloud (IpData (Some ''203.0.113.5'')) (WriteData True)" "initial [home] Missing"]
        authenticate_rejects_without_key
          [of "\<lparr>route = DeleteDomains, x_api_key = None, parser_error = None,
                body_zone = Some (zone home), body_record = Some (recordName home)\<rparr>" None
              "cloud (IpData (Some ''203.0.113.5'')) (WriteData True)" "initial [home] Missing"]
        authenticate_rejects_without_key
          [of "\<lparr>route = GetDomains, x_api_key = Some ''secret'', parser_error = None,
                body_zone = None, body_record = None\<rparr>" "Some ''secret''"
              "cloud (IpData (Some ''203.0.113.5'')) (WriteData True)" "initial [home] Missing"]
  by (simp add: managed_def initial_def)

text \<open>
  C10 as stated fails: a request without a key whose body is not valid JSON is answered
  by the body parser, with 400, before \<^verbatim>\<open>authenticate\<close> runs; it is never answered 401.
\<close>

theorem unkeyed_malformed_body_gets_400:
  "handle (Some ''secret'') (cloud (IpData (Some ''203.0.113.5'')) (WriteData True))
     \<lparr>route = PostDomains, x_api_key = None, parser_error = Some 400,
      body_zone = None, body_record = None\<rparr> (initial [home] Missing) =
     (Returned (Response 400 (Message BodyRejected)), initial [home] Missing)"
  by (simp add: handle_def)

end
